theory Spec2Isabelle
  imports Main
begin

section \<open>Data model\<close>

text \<open>
  The module \<^verbatim>\<open>horovod/_keras/__init__.py\<close> orchestrates collaborators it does not
  define: the collective layer \<^verbatim>\<open>hvd\<close>, the tensor runtime \<^verbatim>\<open>tf\<close>, the
  aggregation helpers, the profiling helper and the wrapped Keras optimizer. Their
  objects are opaque to the module, so they are identified by handles. A gradient is a
  dense \<^verbatim>\<open>tf.Tensor\<close>, a sparse \<^verbatim>\<open>tf.IndexedSlices\<close>, or Python's \<^verbatim>\<open>None\<close>.
\<close>

type_synonym handle = nat

datatype tensor = Tensor handle | IndexedSlices handle

type_synonym gradient = "tensor option"

text \<open>
  Exceptions are values. \<^verbatim>\<open>Exception\<close> is the one the module raises itself;
  \<^verbatim>\<open>AttributeError\<close> is Python's for reading an attribute never assigned;
  \<^verbatim>\<open>TypeError\<close> is TensorFlow's for a control input that is no graph element,
  \<^verbatim>\<open>ValueError\<close> TensorFlow's for an operation applied to \<^verbatim>\<open>None\<close>;
  \<^verbatim>\<open>CollaboratorError\<close> stands for whatever else a collaborator raises.
\<close>

datatype error =
    Exception string
  | AttributeError string
  | TypeError
  | ValueError
  | CollaboratorError handle

text \<open>What \<^verbatim>\<open>tf.control_dependencies\<close> takes: tensors, or operations.\<close>

datatype control_input = CTensor tensor | COperation handle

text \<open>
  Every call the module makes to a collaborator is recorded, with the name scopes and
  the control inputs in force when the call is made, and with what the call returned.
\<close>

datatype call =
    HvdAllreduce tensor string string handle
  | TfConvertToTensor tensor
  | TfNameScope string
  | TfControlDependencies "control_input option list"
  | TfIdentity gradient
  | TfGetSession
  | HvdExecutingEagerly
  | NewAggregationHelper int bool "handle option" bool
  | NewAggregationHelperEager int bool bool
  | NewProfileHelper int string
  | GetConfig
  | FromConfig handle
  | SuperInit handle
  | SuperGetGradients handle handle
  | AggInitAggregationVars "gradient list" handle
  | AggComputeGradients "gradient list"
  | AggApplyGradients handle
  | ProfileStart
  | ProfileEnd

datatype retval =
    Raised error
  | RNone
  | RBool bool
  | RObject handle
  | RTensor tensor
  | RGradients "gradient list"

record entry =
  scope :: "string list"
  ctrl :: "control_input list"
  call :: call
  ret :: retval

text \<open>
  The runtime: the collaborators' own state \<open>world\<close> (the graph and session, the
  helpers' accumulators, the communicator), which the module never inspects; the name
  scopes and control inputs in force; and the record of calls.
\<close>

record 'w runtime =
  world :: 'w
  name_scopes :: "string list"
  control_inputs :: "control_input list"
  trace :: "entry list"

text \<open>
  The optimizer instance handed to \<^verbatim>\<open>create_distributed_optimizer\<close>: the name of its
  class, and the instance itself, which only its own methods read.
\<close>

record keras_optimizer =
  opt_class_name :: string
  opt_instance :: handle

type_synonym ('w, 'a) external = "'w \<Rightarrow> (error + 'a) \<times> 'w"

type_synonym ('w, 'a) action = "'w runtime \<Rightarrow> (error + 'a) \<times> 'w runtime"

text \<open>
  The collaborators, as the module calls them. None of them is defined in the module
  (the helpers are \<^verbatim>\<open>horovod.common.gradient_aggregation\<close>,
  \<^verbatim>\<open>gradient_aggregation_eager\<close> and \<^verbatim>\<open>tf_profile\<close>), so each is a parameter: it may
  raise and may change the world, and what it does inside a call, calling back the
  reduction function included, is its own. \<^verbatim>\<open>tf.convert_to_tensor\<close> returns a dense
  tensor, so its result is the handle of one. \<^verbatim>\<open>hvd.size()\<close> is a query.
  \<^verbatim>\<open>get_config\<close> is the wrapped optimizer's method; \<^verbatim>\<open>from_config\<close> is the part of
  Keras's class method that turns a configuration into the keyword arguments it
  instantiates the class with.
\<close>

record 'w env =
  hvd_size :: "'w \<Rightarrow> int"
  hvd_executing_eagerly :: "('w, bool) external"
  hvd_allreduce :: "tensor \<Rightarrow> string \<Rightarrow> string \<Rightarrow> handle \<Rightarrow> ('w, tensor) external"
  tf_convert_to_tensor :: "tensor \<Rightarrow> ('w, handle) external"
  tf_name_scope :: "string \<Rightarrow> ('w, unit) external"
  tf_identity :: "tensor \<Rightarrow> ('w, tensor) external"
  tf_get_session :: "('w, handle) external"
  new_aggregation_helper :: "int \<Rightarrow> bool \<Rightarrow> handle option \<Rightarrow> bool \<Rightarrow> ('w, unit) external"
  new_aggregation_helper_eager :: "int \<Rightarrow> bool \<Rightarrow> bool \<Rightarrow> ('w, unit) external"
  new_profile_helper :: "int \<Rightarrow> string \<Rightarrow> ('w, unit) external"
  get_config :: "keras_optimizer \<Rightarrow> ('w, handle) external"
  from_config :: "handle \<Rightarrow> ('w, handle) external"
  super_init :: "handle \<Rightarrow> ('w, handle) external"
  super_get_gradients :: "handle \<Rightarrow> handle \<Rightarrow> ('w, gradient list) external"
  super_apply_gradients :: "handle \<Rightarrow> ('w, handle) external"
  agg_init_aggregation_vars :: "gradient list \<Rightarrow> handle \<Rightarrow> ('w, unit) external"
  agg_compute_gradients :: "gradient list \<Rightarrow> ('w, gradient list) external"
  agg_apply_gradients :: "('w, handle) external \<Rightarrow> handle \<Rightarrow> ('w, handle) external"
  profile_start :: "('w, handle) external"
  profile_end :: "('w, handle) external"

section \<open>Calling collaborators\<close>

definition extern :: "call \<Rightarrow> ('a \<Rightarrow> retval) \<Rightarrow> ('w, 'a) external \<Rightarrow> ('w, 'a) action" where
  "extern c to_ret f rt =
     (case f (world rt) of
        (r, w') \<Rightarrow>
          (r, rt\<lparr>world := w',
                 trace := trace rt @
                   [\<lparr>scope = name_scopes rt, ctrl = control_inputs rt, call = c,
                     ret = (case r of Inl e \<Rightarrow> Raised e | Inr x \<Rightarrow> to_ret x)\<rparr>]\<rparr>))"

definition and_then :: "('w, 'a) action \<Rightarrow> ('a \<Rightarrow> ('w, 'b) action) \<Rightarrow> ('w, 'b) action" where
  "and_then m k rt = (case m rt of (Inl e, rt') \<Rightarrow> (Inl e, rt') | (Inr x, rt') \<Rightarrow> k x rt')"

definition returning :: "'a \<Rightarrow> ('w, 'a) action" where
  "returning x rt = (Inr x, rt)"

text \<open>
  \<^verbatim>\<open>with tf.name_scope(name): body\<close>. Entering may raise; leaving restores the scopes
  in force before, also when the body raises.
\<close>

definition with_name_scope :: "'w env \<Rightarrow> string \<Rightarrow> ('w, 'a) action \<Rightarrow> ('w, 'a) action" where
  "with_name_scope env name body rt =
     (case extern (TfNameScope name) (\<lambda>_. RNone) (tf_name_scope env name) rt of
        (Inl e, rt1) \<Rightarrow> (Inl e, rt1)
      | (Inr _, rt1) \<Rightarrow>
          (case body (rt1\<lparr>name_scopes := name_scopes rt1 @ [name]\<rparr>) of
             (r, rt2) \<Rightarrow> (r, rt2\<lparr>name_scopes := name_scopes rt1\<rparr>)))"

section \<open>The reduction function\<close>

fun is_IndexedSlices :: "tensor \<Rightarrow> bool" where
  "is_IndexedSlices (IndexedSlices _) = True"
| "is_IndexedSlices (Tensor _) = False"

text \<open>
  The loop of \<^verbatim>\<open>allreduce_grads\<close>, with \<^verbatim>\<open>averaged_gradients\<close> as the accumulator:
  \<^verbatim>\<open>
  for grad in gradients:
      if grad is not None:
          if sparse_as_dense and isinstance(grad, tf.IndexedSlices):
              grad = tf.convert_to_tensor(grad)
          avg_grad = hvd.allreduce(grad, device_dense=device_dense,
                                   device_sparse=device_sparse, compression=compression)
          averaged_gradients.append(avg_grad)
      else:
          averaged_gradients.append(None)
  return averaged_gradients
  \<close>
\<close>

fun allreduce_grads_loop ::
  "'w env \<Rightarrow> bool \<Rightarrow> string \<Rightarrow> string \<Rightarrow> handle \<Rightarrow> gradient list \<Rightarrow> gradient list \<Rightarrow>
   ('w, gradient list) action" where
  "allreduce_grads_loop env sparse_as_dense device_dense device_sparse compression
     [] averaged_gradients rt = (Inr averaged_gradients, rt)"
| "allreduce_grads_loop env sparse_as_dense device_dense device_sparse compression
     (Some grad # gradients) averaged_gradients rt =
     (case (if sparse_as_dense \<and> is_IndexedSlices grad
            then and_then (extern (TfConvertToTensor grad) (\<lambda>h. RTensor (Tensor h))
                             (tf_convert_to_tensor env grad))
                          (\<lambda>h. returning (Tensor h))
            else returning grad) rt of
        (Inl e, rt1) \<Rightarrow> (Inl e, rt1)
      | (Inr grad', rt1) \<Rightarrow>
          (case extern (HvdAllreduce grad' device_dense device_sparse compression) RTensor
                  (hvd_allreduce env grad' device_dense device_sparse compression) rt1 of
             (Inl e, rt2) \<Rightarrow> (Inl e, rt2)
           | (Inr avg_grad, rt2) \<Rightarrow>
               allreduce_grads_loop env sparse_as_dense device_dense device_sparse compression
                 gradients (averaged_gradients @ [Some avg_grad]) rt2))"
| "allreduce_grads_loop env sparse_as_dense device_dense device_sparse compression
     (None # gradients) averaged_gradients rt =
     allreduce_grads_loop env sparse_as_dense device_dense device_sparse compression
       gradients (averaged_gradients @ [None]) rt"

definition make_allreduce_grads_fn ::
  "'w env \<Rightarrow> string \<Rightarrow> bool \<Rightarrow> string \<Rightarrow> string \<Rightarrow> handle \<Rightarrow> gradient list \<Rightarrow>
   ('w, gradient list) action" where
  "make_allreduce_grads_fn env name_scope sparse_as_dense device_dense device_sparse compression =
     (\<lambda>gradients.
        with_name_scope env name_scope
          (allreduce_grads_loop env sparse_as_dense device_dense device_sparse compression
             gradients []))"

section \<open>The distributed optimizer\<close>

text \<open>The arguments of \<^verbatim>\<open>create_distributed_optimizer\<close> that its class closes over.\<close>

record params =
  p_name :: "string option"
  p_device_dense :: string
  p_device_sparse :: string
  p_compression :: handle
  p_sparse_as_dense :: bool
  p_aggregation_frequency :: int
  p_grad_updated_sizes_dict :: "handle option"
  p_profile_frequency :: int
  p_profile_filename :: string
  p_average_aggregated_gradients :: bool

text \<open>
  An instance of the generated class. \<open>self_grads\<close> is \<open>None\<close> until a method
  assigns \<^verbatim>\<open>self.grads\<close>; \<open>self_base\<close> is the part of the instance the wrapped
  class's own \<^verbatim>\<open>__init__\<close> builds.
\<close>

record optimizer =
  self_class_name :: string
  self_base_class_name :: string
  self_base :: handle
  self_name :: string
  self_device_dense :: string
  self_device_sparse :: string
  self_compression :: handle
  self_sparse_as_dense :: bool
  self_aggregated_gradients :: bool
  self_executing_eagerly :: bool
  self_grads :: "gradient list option"

type_synonym ('w, 'a) pymethod = "optimizer \<Rightarrow> 'w runtime \<Rightarrow> (error + 'a) \<times> optimizer \<times> 'w runtime"

text \<open>
  \<^verbatim>\<open>with tf.control_dependencies(control_inputs): body\<close> in graph mode. TensorFlow
  converts every control input to a graph element and raises \<^verbatim>\<open>TypeError\<close> on one
  that is \<^verbatim>\<open>None\<close>; otherwise the body runs with the inputs added to those in force,
  and leaving restores them.
\<close>

definition with_control_dependencies ::
  "control_input option list \<Rightarrow> ('w, 'a) action \<Rightarrow> ('w, 'a) action" where
  "with_control_dependencies inputs body rt =
     (if None \<in> set inputs
      then extern (TfControlDependencies inputs) (\<lambda>_. RNone) (\<lambda>w. (Inl TypeError, w)) rt
      else
        (case extern (TfControlDependencies inputs) (\<lambda>_. RNone) (\<lambda>w. (Inr (), w)) rt of
           (Inl e, rt1) \<Rightarrow> (Inl e, rt1)
         | (Inr _, rt1) \<Rightarrow>
             (case body (rt1\<lparr>control_inputs := control_inputs rt1 @ map the inputs\<rparr>) of
                (r, rt2) \<Rightarrow> (r, rt2\<lparr>control_inputs := control_inputs rt1\<rparr>))))"

text \<open>
  \<^verbatim>\<open>tf.identity(grad)\<close>: TensorFlow raises \<^verbatim>\<open>ValueError\<close> on \<^verbatim>\<open>None\<close>, and returns
  a new tensor otherwise.
\<close>

definition tf_identity_call :: "'w env \<Rightarrow> gradient \<Rightarrow> ('w, tensor) action" where
  "tf_identity_call env grad =
     (case grad of
        None \<Rightarrow> extern (TfIdentity None) RTensor (\<lambda>w. (Inl ValueError, w))
      | Some t \<Rightarrow> extern (TfIdentity (Some t)) RTensor (tf_identity env t))"

text \<open>The comprehension \<^verbatim>\<open>[tf.identity(grad) for grad in allreduced_grads]\<close>.\<close>

fun identity_all :: "'w env \<Rightarrow> gradient list \<Rightarrow> gradient list \<Rightarrow> ('w, gradient list) action" where
  "identity_all env [] acc rt = (Inr acc, rt)"
| "identity_all env (grad # rest) acc rt =
     (case tf_identity_call env grad rt of
        (Inl e, rt1) \<Rightarrow> (Inl e, rt1)
      | (Inr t, rt1) \<Rightarrow> identity_all env rest (acc @ [Some t]) rt1)"

text \<open>Reading \<^verbatim>\<open>self.grads\<close>.\<close>

definition read_grads :: "optimizer \<Rightarrow> ('w, gradient list) action" where
  "read_grads self rt =
     (case self_grads self of
        None \<Rightarrow> (Inl (AttributeError ''grads''), rt)
      | Some gs \<Rightarrow> (Inr gs, rt))"

text \<open>
  \<^verbatim>\<open>__init__(self, **kwargs)\<close>, for an instance of the class named \<open>cls\<close> whose base
  is named \<open>base\<close>. The reduction function it builds is handed to the helper. The
  fields are what lines 56 to 65 assign; what the wrapped class's \<^verbatim>\<open>__init__\<close> at
  line 91 assigns in turn (\<^verbatim>\<open>tf.keras\<close> sets \<^verbatim>\<open>_name\<close> again from its arguments) is
  kept in \<open>self_base\<close> and not traced into these fields.
\<close>

definition DistributedOptimizer_init ::
  "'w env \<Rightarrow> params \<Rightarrow> string \<Rightarrow> string \<Rightarrow> handle \<Rightarrow> ('w, optimizer) action" where
  "DistributedOptimizer_init env p cls base kwargs =
     and_then (extern HvdExecutingEagerly RBool (hvd_executing_eagerly env)) (\<lambda>eager.
     and_then
       (if \<not> eager
        then and_then
               (extern (NewAggregationHelper (p_aggregation_frequency p) (p_sparse_as_dense p)
                          (p_grad_updated_sizes_dict p) (p_average_aggregated_gradients p))
                  (\<lambda>_. RNone)
                  (new_aggregation_helper env (p_aggregation_frequency p) (p_sparse_as_dense p)
                     (p_grad_updated_sizes_dict p) (p_average_aggregated_gradients p)))
               (\<lambda>_. extern (NewProfileHelper (p_profile_frequency p) (p_profile_filename p))
                       (\<lambda>_. RNone)
                       (new_profile_helper env (p_profile_frequency p) (p_profile_filename p)))
        else extern (NewAggregationHelperEager (p_aggregation_frequency p) (p_sparse_as_dense p)
                       (p_average_aggregated_gradients p))
               (\<lambda>_. RNone)
               (new_aggregation_helper_eager env (p_aggregation_frequency p) (p_sparse_as_dense p)
                  (p_average_aggregated_gradients p))) (\<lambda>_.
     and_then (extern (SuperInit kwargs) RObject (super_init env kwargs)) (\<lambda>b.
     returning
       \<lparr>self_class_name = cls,
        self_base_class_name = base,
        self_base = b,
        self_name =
          (case p_name p of
             Some n \<Rightarrow> if n \<noteq> [] then n else ''Distributed'' @ base
           | None \<Rightarrow> ''Distributed'' @ base),
        self_device_dense = p_device_dense p,
        self_device_sparse = p_device_sparse p,
        self_compression = p_compression p,
        self_sparse_as_dense = p_sparse_as_dense p,
        self_aggregated_gradients = False,
        self_executing_eagerly = eager,
        self_grads = None\<rparr>)))"

definition allreduced_grads_fn :: "'w env \<Rightarrow> optimizer \<Rightarrow> gradient list \<Rightarrow> ('w, gradient list) action" where
  "allreduced_grads_fn env self =
     make_allreduce_grads_fn env (self_name self @ ''_Allreduce'') (self_sparse_as_dense self)
       (self_device_dense self) (self_device_sparse self) (self_compression self)"

text \<open>
  \<^verbatim>\<open>_allreduce(self)\<close>. The flag is set first, so it stays set when a later line raises.
\<close>

definition DistributedOptimizer_allreduce :: "'w env \<Rightarrow> ('w, gradient list) pymethod" where
  "DistributedOptimizer_allreduce env self rt =
     (let self' = self\<lparr>self_aggregated_gradients := True\<rparr> in
      case
        (if self_executing_eagerly self'
         then
           (if 1 < hvd_size env (world rt)
            then and_then (read_grads self') (\<lambda>gs.
                   extern (AggComputeGradients gs) RGradients (agg_compute_gradients env gs))
            else read_grads self')
         else
           (if 1 < hvd_size env (world rt)
            then
              and_then (read_grads self') (\<lambda>gs.
              and_then (extern TfGetSession RObject (tf_get_session env)) (\<lambda>sess.
              and_then (extern (AggInitAggregationVars gs sess) (\<lambda>_. RNone)
                          (agg_init_aggregation_vars env gs sess)) (\<lambda>_.
              and_then (extern ProfileStart RObject (profile_start env)) (\<lambda>started.
              and_then (with_control_dependencies [Some (COperation started)]
                          (and_then (read_grads self') (\<lambda>gs.
                             extern (AggComputeGradients gs) RGradients
                               (agg_compute_gradients env gs)))) (\<lambda>allreduced_grads.
              and_then (with_control_dependencies (map (map_option CTensor) allreduced_grads)
                          (extern ProfileEnd RObject (profile_end env))) (\<lambda>comm_end.
              with_control_dependencies [Some (COperation comm_end)]
                (identity_all env allreduced_grads [])))))))
            else read_grads self')) rt
      of (r, rt') \<Rightarrow> (r, self', rt'))"

definition DistributedOptimizer_get_gradients ::
  "'w env \<Rightarrow> handle \<Rightarrow> handle \<Rightarrow> ('w, gradient list) pymethod" where
  "DistributedOptimizer_get_gradients env loss params self rt =
     (case extern (SuperGetGradients loss params) RGradients
             (super_get_gradients env loss params) rt of
        (Inl e, rt1) \<Rightarrow> (Inl e, self, rt1)
      | (Inr gs, rt1) \<Rightarrow> DistributedOptimizer_allreduce env (self\<lparr>self_grads := Some gs\<rparr>) rt1)"

definition DistributedOptimizer_aggregate_gradients ::
  "'w env \<Rightarrow> (gradient \<times> handle) list \<Rightarrow> ('w, gradient list) pymethod" where
  "DistributedOptimizer_aggregate_gradients env grads_and_vars self rt =
     DistributedOptimizer_allreduce env
       (self\<lparr>self_grads := Some (map (\<lambda>(grad, var). grad) grads_and_vars)\<rparr>) rt"

definition ordering_error :: string where
  "ordering_error =
     ''`apply_gradients()` was called without a call to '' @
     ''`get_gradients()`or `_aggregate_gradients` . If you'' @ [CHR 0x27] @ ''re using '' @
     ''TensorFlow 2.0 or 2.1, please specify '' @
     ''`experimental_run_tf_function=False` in `compile()`.''"

text \<open>
  \<^verbatim>\<open>apply_gradients(self, *args, **kwargs)\<close>; \<open>args\<close> stands for both. The closure
  \<^verbatim>\<open>lambda: super(...).apply_gradients(*args, **kwargs)\<close> is the wrapped optimizer's own
  update on these arguments. What the update does when the helper runs it is the wrapped
  optimizer's: a Keras that calls \<^verbatim>\<open>_aggregate_gradients\<close> from it assigns
  \<^verbatim>\<open>self.grads\<close> again, which is not traced here; the ordering flag is set by then and
  stays set.
\<close>

definition DistributedOptimizer_apply_gradients :: "'w env \<Rightarrow> handle \<Rightarrow> ('w, handle) pymethod" where
  "DistributedOptimizer_apply_gradients env args self rt =
     (if \<not> self_aggregated_gradients self
      then (Inl (Exception ordering_error), self, rt)
      else
        (case extern (AggApplyGradients args) RObject
                (agg_apply_gradients env (super_apply_gradients env args) args) rt of
           (r, rt') \<Rightarrow> (r, self, rt')))"


text \<open>
  A caller's use of an instance: a sequence of method calls. A caller may catch what a
  call raises and go on, so a run keeps the instance whatever the outcome of each call.
\<close>

datatype method_call =
    GetGradients handle handle
  | AggregateGradients "(gradient \<times> handle) list"
  | Allreduce
  | ApplyGradients handle

definition invoke :: "'w env \<Rightarrow> method_call \<Rightarrow> optimizer \<Rightarrow> 'w runtime \<Rightarrow> optimizer \<times> 'w runtime" where
  "invoke env c self rt =
     (case c of
        GetGradients loss params \<Rightarrow>
          (case DistributedOptimizer_get_gradients env loss params self rt of
             (r, self', rt') \<Rightarrow> (self', rt'))
      | AggregateGradients grads_and_vars \<Rightarrow>
          (case DistributedOptimizer_aggregate_gradients env grads_and_vars self rt of
             (r, self', rt') \<Rightarrow> (self', rt'))
      | Allreduce \<Rightarrow>
          (case DistributedOptimizer_allreduce env self rt of (r, self', rt') \<Rightarrow> (self', rt'))
      | ApplyGradients args \<Rightarrow>
          (case DistributedOptimizer_apply_gradients env args self rt of
             (r, self', rt') \<Rightarrow> (self', rt')))"

fun invoke_all :: "'w env \<Rightarrow> method_call list \<Rightarrow> optimizer \<Rightarrow> 'w runtime \<Rightarrow> optimizer \<times> 'w runtime" where
  "invoke_all env [] self rt = (self, rt)"
| "invoke_all env (c # cs) self rt =
     (case invoke env c self rt of (self', rt') \<Rightarrow> invoke_all env cs self' rt')"

text \<open>
  Whether a call reaches \<^verbatim>\<open>_allreduce\<close>: \<^verbatim>\<open>_aggregate_gradients\<close> always does,
  \<^verbatim>\<open>get_gradients\<close> does once the wrapped optimizer's \<^verbatim>\<open>get_gradients\<close> has
  returned, \<^verbatim>\<open>apply_gradients\<close> never does.
\<close>

definition enters_allreduce :: "'w env \<Rightarrow> method_call \<Rightarrow> 'w runtime \<Rightarrow> bool" where
  "enters_allreduce env c rt =
     (case c of
        GetGradients loss params \<Rightarrow>
          (case fst (super_get_gradients env loss params (world rt)) of
             Inl _ \<Rightarrow> False
           | Inr _ \<Rightarrow> True)
      | AggregateGradients _ \<Rightarrow> True
      | Allreduce \<Rightarrow> True
      | ApplyGradients _ \<Rightarrow> False)"

fun ever_entered :: "'w env \<Rightarrow> method_call list \<Rightarrow> optimizer \<Rightarrow> 'w runtime \<Rightarrow> bool" where
  "ever_entered env [] self rt = False"
| "ever_entered env (c # cs) self rt =
     (enters_allreduce env c rt \<or>
      (case invoke env c self rt of (self', rt') \<Rightarrow> ever_entered env cs self' rt'))"

section \<open>Restoring a saved model\<close>

text \<open>A Python class, as \<^verbatim>\<open>load_model\<close> reads it: \<^verbatim>\<open>__name__\<close> and \<^verbatim>\<open>__module__\<close>.\<close>

record pyclass =
  cls_name :: string
  cls_module :: string

text \<open>
  \<^verbatim>\<open>str.lower()\<close> on the ASCII letters. A \<open>char\<close> is a byte, so letters outside
  ASCII, which Python lowers too, stay as they are here.
\<close>

definition lower_char :: "char \<Rightarrow> char" where
  "lower_char c =
     (let n = (of_char c :: nat) in if 65 \<le> n \<and> n \<le> 90 then char_of (n + 32) else c)"

definition lower :: "string \<Rightarrow> string" where
  "lower s = map lower_char s"

text \<open>
  A dict comprehension \<^verbatim>\<open>{key(x): value(x) for x in xs}\<close>: the items are stored in
  order, so a later one replaces an earlier one with the same key.
\<close>

fun dict_comprehension :: "('a \<Rightarrow> 'k) \<Rightarrow> ('a \<Rightarrow> 'v) \<Rightarrow> 'a list \<Rightarrow> ('k \<rightharpoonup> 'v) \<Rightarrow> ('k \<rightharpoonup> 'v)" where
  "dict_comprehension key val [] d = d"
| "dict_comprehension key val (x # xs) d = dict_comprehension key val xs (d(key x \<mapsto> val x))"

text \<open>
  The table \<^verbatim>\<open>horovod_objects\<close>, in the three stages \<^verbatim>\<open>load_model\<close> builds it.
  \<open>subclasses\<close> is \<^verbatim>\<open>keras.optimizers.Optimizer.__subclasses__()\<close>.
\<close>

definition builtin_objects ::
  "pyclass list \<Rightarrow> (pyclass \<Rightarrow> 'o) \<Rightarrow> string list \<Rightarrow> (string \<rightharpoonup> 'o)" where
  "builtin_objects subclasses wrap_optimizer optimizer_modules =
     dict_comprehension (\<lambda>subclass. lower (cls_name subclass)) wrap_optimizer
       (filter (\<lambda>subclass. cls_module subclass \<in> set optimizer_modules) subclasses)
       Map.empty"

definition with_custom_optimizers ::
  "(pyclass \<Rightarrow> 'o) \<Rightarrow> pyclass list option \<Rightarrow> (string \<rightharpoonup> 'o) \<Rightarrow> (string \<rightharpoonup> 'o)" where
  "with_custom_optimizers wrap_optimizer custom_optimizers horovod_objects =
     (case custom_optimizers of
        None \<Rightarrow> horovod_objects
      | Some classes \<Rightarrow>
          horovod_objects ++ dict_comprehension cls_name wrap_optimizer classes Map.empty)"

definition with_custom_objects ::
  "(string \<rightharpoonup> 'o) option \<Rightarrow> (string \<rightharpoonup> 'o) \<Rightarrow> (string \<rightharpoonup> 'o)" where
  "with_custom_objects custom_objects horovod_objects =
     (case custom_objects of
        None \<Rightarrow> horovod_objects
      | Some objects \<Rightarrow> horovod_objects ++ objects)"

definition horovod_objects ::
  "pyclass list \<Rightarrow> (pyclass \<Rightarrow> 'o) \<Rightarrow> string list \<Rightarrow> pyclass list option \<Rightarrow>
   (string \<rightharpoonup> 'o) option \<Rightarrow> (string \<rightharpoonup> 'o)" where
  "horovod_objects subclasses wrap_optimizer optimizer_modules custom_optimizers custom_objects =
     with_custom_objects custom_objects
       (with_custom_optimizers wrap_optimizer custom_optimizers
          (builtin_objects subclasses wrap_optimizer optimizer_modules))"

text \<open>
  \<^verbatim>\<open>load_model\<close>; \<open>keras_load_model\<close> is \<^verbatim>\<open>keras.models.load_model\<close>, called
  with the file path and the table as \<^verbatim>\<open>custom_objects\<close>.
\<close>

definition load_model ::
  "pyclass list \<Rightarrow> (string \<Rightarrow> (string \<rightharpoonup> 'o) \<Rightarrow> 'm) \<Rightarrow> (pyclass \<Rightarrow> 'o) \<Rightarrow> string list \<Rightarrow>
   string \<Rightarrow> pyclass list option \<Rightarrow> (string \<rightharpoonup> 'o) option \<Rightarrow> 'm" where
  "load_model subclasses keras_load_model wrap_optimizer optimizer_modules filepath
     custom_optimizers custom_objects =
     keras_load_model filepath
       (horovod_objects subclasses wrap_optimizer optimizer_modules custom_optimizers
          custom_objects)"

section \<open>Reading the record of calls\<close>

text \<open>The calls a run issued: what it appended to the record.\<close>

definition issued :: "'w runtime \<Rightarrow> 'w runtime \<Rightarrow> entry list" where
  "issued rt rt' = drop (length (trace rt)) (trace rt')"

text \<open>
  The entry of a call made under the name scopes and control inputs of \<open>rt\<close>, with
  the control inputs \<open>extra\<close> added.
\<close>

definition recorded :: "'w runtime \<Rightarrow> control_input list \<Rightarrow> call \<Rightarrow> retval \<Rightarrow> entry" where
  "recorded rt extra c v =
     \<lparr>scope = name_scopes rt, ctrl = control_inputs rt @ extra, call = c, ret = v\<rparr>"


text \<open>The tensor a call submits to \<^verbatim>\<open>hvd.allreduce\<close>, if it is such a call.\<close>

fun allreduce_arg :: "call \<Rightarrow> tensor option" where
  "allreduce_arg (HvdAllreduce t _ _ _) = Some t"
| "allreduce_arg _ = None"

fun convert_arg :: "call \<Rightarrow> tensor option" where
  "convert_arg (TfConvertToTensor t) = Some t"
| "convert_arg _ = None"

definition allreduce_calls :: "entry list \<Rightarrow> entry list" where
  "allreduce_calls es = filter (\<lambda>e. allreduce_arg (call e) \<noteq> None) es"

definition convert_calls :: "entry list \<Rightarrow> entry list" where
  "convert_calls es = filter (\<lambda>e. convert_arg (call e) \<noteq> None) es"

text \<open>
  The calls one run of the reduction loop issues under name scopes \<open>sc\<close> and control
  inputs \<open>ct\<close>, with the outcome of the run: a gradient that is \<^verbatim>\<open>None\<close> issues
  nothing; any other is submitted to \<^verbatim>\<open>hvd.allreduce\<close>, after a conversion when one is
  due; the run stops at the first call that raises.
\<close>

definition prepared ::
  "bool \<Rightarrow> string list \<Rightarrow> control_input list \<Rightarrow> tensor \<Rightarrow> tensor \<Rightarrow> entry list \<Rightarrow> bool" where
  "prepared sad sc ct g g' pre =
     (if sad \<and> is_IndexedSlices g
      then \<exists>h. g' = Tensor h \<and>
             pre = [\<lparr>scope = sc, ctrl = ct, call = TfConvertToTensor g, ret = RTensor (Tensor h)\<rparr>]
      else g' = g \<and> pre = [])"

inductive reduction_trace ::
  "bool \<Rightarrow> string \<Rightarrow> string \<Rightarrow> handle \<Rightarrow> string list \<Rightarrow> control_input list \<Rightarrow>
   gradient list \<Rightarrow> (error + gradient list) \<Rightarrow> entry list \<Rightarrow> bool"
  for sad dd ds cmpr sc ct where
    finished: "reduction_trace sad dd ds cmpr sc ct [] (Inr []) []"
  | null: "reduction_trace sad dd ds cmpr sc ct gs r new \<Longrightarrow>
           reduction_trace sad dd ds cmpr sc ct (None # gs) (map_sum id (Cons None) r) new"
  | reduced: "reduction_trace sad dd ds cmpr sc ct gs r new \<Longrightarrow> prepared sad sc ct g g' pre \<Longrightarrow>
           reduction_trace sad dd ds cmpr sc ct (Some g # gs) (map_sum id (Cons (Some avg)) r)
             (pre @ \<lparr>scope = sc, ctrl = ct, call = HvdAllreduce g' dd ds cmpr, ret = RTensor avg\<rparr> # new)"
  | allreduce_raised: "prepared sad sc ct g g' pre \<Longrightarrow>
           reduction_trace sad dd ds cmpr sc ct (Some g # gs) (Inl e)
             (pre @ [\<lparr>scope = sc, ctrl = ct, call = HvdAllreduce g' dd ds cmpr, ret = Raised e\<rparr>])"
  | convert_raised: "sad \<Longrightarrow> is_IndexedSlices g \<Longrightarrow>
           reduction_trace sad dd ds cmpr sc ct (Some g # gs) (Inl e)
             [\<lparr>scope = sc, ctrl = ct, call = TfConvertToTensor g, ret = Raised e\<rparr>]"


text \<open>
  The calls of \<^verbatim>\<open>_allreduce\<close> in deferred mode with several participants when no call
  raises, in the order of lines 119 to 128: the session, the helper's variables,
  \<^verbatim>\<open>profile_start\<close>, the helper's \<^verbatim>\<open>compute_gradients\<close> under the control input
  \<open>started\<close>, \<^verbatim>\<open>profile_end\<close> under the reduced gradients as control inputs, and one
  \<^verbatim>\<open>tf.identity\<close> per reduced gradient under the control input \<open>comm_end\<close>.
\<close>

definition deferred_calls ::
  "'w runtime \<Rightarrow> gradient list \<Rightarrow> handle \<Rightarrow> handle \<Rightarrow> gradient list \<Rightarrow> handle \<Rightarrow> tensor list \<Rightarrow>
   entry list" where
  "deferred_calls rt gs sess started allreduced comm_end out =
     [recorded rt [] TfGetSession (RObject sess),
      recorded rt [] (AggInitAggregationVars gs sess) RNone,
      recorded rt [] ProfileStart (RObject started),
      recorded rt [] (TfControlDependencies [Some (COperation started)]) RNone,
      recorded rt [COperation started] (AggComputeGradients gs) (RGradients allreduced),
      recorded rt [] (TfControlDependencies (map (map_option CTensor) allreduced)) RNone,
      recorded rt (map (\<lambda>g. CTensor (the g)) allreduced) ProfileEnd (RObject comm_end),
      recorded rt [] (TfControlDependencies [Some (COperation comm_end)]) RNone] @
     map (\<lambda>(g, t). recorded rt [COperation comm_end] (TfIdentity g) (RTensor t))
       (zip allreduced out)"

section \<open>A sample environment\<close>

text \<open>
  Collaborators for running the model on concrete inputs: the world is a counter, every
  call succeeds, and every new object takes the counter as its handle. The collective
  has \<open>participants\<close> members and \<open>eager\<close> says whether execution is eager. The
  aggregation helper hands back the gradients it is given, and its \<^verbatim>\<open>apply_gradients\<close>
  runs the update it is given. \<^verbatim>\<open>hvd.allreduce\<close> keeps the kind of tensor it is given.
\<close>

definition sample_env :: "int \<Rightarrow> bool \<Rightarrow> nat env" where
  "sample_env participants eager =
     \<lparr>hvd_size = (\<lambda>w. participants),
      hvd_executing_eagerly = (\<lambda>w. (Inr eager, w)),
      hvd_allreduce = (\<lambda>t dd ds c w.
        (Inr (case t of Tensor _ \<Rightarrow> Tensor w | IndexedSlices _ \<Rightarrow> IndexedSlices w), Suc w)),
      tf_convert_to_tensor = (\<lambda>t w. (Inr w, Suc w)),
      tf_name_scope = (\<lambda>n w. (Inr (), w)),
      tf_identity = (\<lambda>t w. (Inr (Tensor w), Suc w)),
      tf_get_session = (\<lambda>w. (Inr w, Suc w)),
      new_aggregation_helper = (\<lambda>f s d a w. (Inr (), w)),
      new_aggregation_helper_eager = (\<lambda>f s a w. (Inr (), w)),
      new_profile_helper = (\<lambda>f n w. (Inr (), w)),
      get_config = (\<lambda>optimizer w. (Inr w, Suc w)),
      from_config = (\<lambda>config w. (Inr config, w)),
      super_init = (\<lambda>kwargs w. (Inr w, Suc w)),
      super_get_gradients = (\<lambda>loss params w. (Inr [Some (Tensor w)], Suc w)),
      super_apply_gradients = (\<lambda>args w. (Inr w, Suc w)),
      agg_init_aggregation_vars = (\<lambda>gs sess w. (Inr (), w)),
      agg_compute_gradients = (\<lambda>gs w. (Inr gs, w)),
      agg_apply_gradients = (\<lambda>update args w. update w),
      profile_start = (\<lambda>w. (Inr w, Suc w)),
      profile_end = (\<lambda>w. (Inr w, Suc w))\<rparr>"

definition sample_runtime :: "nat runtime" where
  "sample_runtime = \<lparr>world = 0, name_scopes = [], control_inputs = [], trace = []\<rparr>"

text \<open>
  Arguments for \<^verbatim>\<open>create_distributed_optimizer\<close>, and the instance its class's
  \<^verbatim>\<open>__init__\<close> builds from them in the sample environment for a wrapped class
  \<^verbatim>\<open>Adam\<close>.
\<close>

definition sample_params :: params where
  "sample_params =
     \<lparr>p_name = None,
      p_device_dense = [],
      p_device_sparse = [],
      p_compression = 0,
      p_sparse_as_dense = False,
      p_aggregation_frequency = 1,
      p_grad_updated_sizes_dict = None,
      p_profile_frequency = 0,
      p_profile_filename = [],
      p_average_aggregated_gradients = True\<rparr>"

definition sample_optimizer :: "bool \<Rightarrow> optimizer" where
  "sample_optimizer eager =
     \<lparr>self_class_name = ''Adam'',
      self_base_class_name = ''Adam'',
      self_base = 0,
      self_name = ''DistributedAdam'',
      self_device_dense = [],
      self_device_sparse = [],
      self_compression = 0,
      self_sparse_as_dense = False,
      self_aggregated_gradients = False,
      self_executing_eagerly = eager,
      self_grads = None\<rparr>"

text \<open>
  The sample environment with a wrapped optimizer whose \<^verbatim>\<open>get_gradients\<close> raises.
\<close>

definition raising_env :: "nat env" where
  "raising_env =
     (sample_env 2 False)\<lparr>super_get_gradients := (\<lambda>loss params w. (Inl (CollaboratorError 0), w))\<rparr>"

section \<open>Properties of the reduction function\<close>

lemma extern_Inr:
  "extern c g f rt = (Inr x, rt') \<longleftrightarrow>
     (\<exists>w'. f (world rt) = (Inr x, w') \<and>
       rt' = rt\<lparr>world := w', trace := trace rt @
         [\<lparr>scope = name_scopes rt, ctrl = control_inputs rt, call = c, ret = g x\<rparr>]\<rparr>)"
  by (auto simp: extern_def split: prod.splits)

lemma extern_Inl:
  "extern c g f rt = (Inl e, rt') \<longleftrightarrow>
     (\<exists>w'. f (world rt) = (Inl e, w') \<and>
       rt' = rt\<lparr>world := w', trace := trace rt @
         [\<lparr>scope = name_scopes rt, ctrl = control_inputs rt, call = c, ret = Raised e\<rparr>]\<rparr>)"
  by (auto simp: extern_def split: prod.splits)

lemma loop_step:
  assumes "allreduce_grads_loop env sad dd ds cmpr (Some grad # gs) acc rt = (r, rt')"
  obtains
    (convert_raised) e where "sad" "is_IndexedSlices grad" "r = Inl e"
      "trace rt' = trace rt @ [\<lparr>scope = name_scopes rt, ctrl = control_inputs rt,
          call = TfConvertToTensor grad, ret = Raised e\<rparr>]"
      "name_scopes rt' = name_scopes rt" "control_inputs rt' = control_inputs rt"
  | (allreduce_raised) e grad' pre where
      "prepared sad (name_scopes rt) (control_inputs rt) grad grad' pre" "r = Inl e"
      "trace rt' = trace rt @ pre @ [\<lparr>scope = name_scopes rt, ctrl = control_inputs rt,
          call = HvdAllreduce grad' dd ds cmpr, ret = Raised e\<rparr>]"
      "name_scopes rt' = name_scopes rt" "control_inputs rt' = control_inputs rt"
  | (continue) avg grad' pre rt2 where
      "prepared sad (name_scopes rt) (control_inputs rt) grad grad' pre"
      "allreduce_grads_loop env sad dd ds cmpr gs (acc @ [Some avg]) rt2 = (r, rt')"
      "trace rt2 = trace rt @ pre @ [\<lparr>scope = name_scopes rt, ctrl = control_inputs rt,
          call = HvdAllreduce grad' dd ds cmpr, ret = RTensor avg\<rparr>]"
      "name_scopes rt2 = name_scopes rt" "control_inputs rt2 = control_inputs rt"
proof -
  define convert where "convert =
    extern (TfConvertToTensor grad) (\<lambda>h. RTensor (Tensor h)) (tf_convert_to_tensor env grad) rt"
  have reduce: thesis
    if prep: "prepared sad (name_scopes rt) (control_inputs rt) grad grad' pre"
      and rt1: "trace rt1 = trace rt @ pre" "name_scopes rt1 = name_scopes rt"
        "control_inputs rt1 = control_inputs rt"
      and run: "(case extern (HvdAllreduce grad' dd ds cmpr) RTensor
                  (hvd_allreduce env grad' dd ds cmpr) rt1 of
             (Inl e, rt2) \<Rightarrow> (Inl e, rt2)
           | (Inr avg_grad, rt2) \<Rightarrow>
               allreduce_grads_loop env sad dd ds cmpr gs (acc @ [Some avg_grad]) rt2) = (r, rt')"
    for grad' pre rt1
  proof (cases "extern (HvdAllreduce grad' dd ds cmpr) RTensor (hvd_allreduce env grad' dd ds cmpr) rt1")
    case (Pair a rt2)
    show thesis
    proof (cases a)
      case (Inl e)
      with Pair run have r: "r = Inl e" and "rt' = rt2" by simp_all
      with Pair Inl rt1 have
        "trace rt' = trace rt @ pre @ [\<lparr>scope = name_scopes rt, ctrl = control_inputs rt,
          call = HvdAllreduce grad' dd ds cmpr, ret = Raised e\<rparr>]"
        "name_scopes rt' = name_scopes rt" "control_inputs rt' = control_inputs rt"
        by (auto simp: extern_Inl)
      with prep r show thesis by (rule allreduce_raised)
    next
      case (Inr avg)
      with Pair run
      have loop: "allreduce_grads_loop env sad dd ds cmpr gs (acc @ [Some avg]) rt2 = (r, rt')"
        by simp
      from Pair Inr rt1 have
        "trace rt2 = trace rt @ pre @ [\<lparr>scope = name_scopes rt, ctrl = control_inputs rt,
          call = HvdAllreduce grad' dd ds cmpr, ret = RTensor avg\<rparr>]"
        "name_scopes rt2 = name_scopes rt" "control_inputs rt2 = control_inputs rt"
        by (auto simp: extern_Inr)
      with prep loop show thesis by (rule continue)
    qed
  qed
  show thesis
  proof (cases "sad \<and> is_IndexedSlices grad")
    case False
    then have "prepared sad (name_scopes rt) (control_inputs rt) grad grad []"
      by (simp add: prepared_def)
    moreover have "trace rt = trace rt @ []" by simp
    ultimately show thesis
      using assms False by (intro reduce[of grad "[]" rt]) (auto simp: returning_def)
  next
    case True
    show thesis
    proof (cases convert)
      case (Pair c rt1)
      show thesis
      proof (cases c)
        case (Inl e)
        with Pair True assms have r: "r = Inl e" and "rt' = rt1"
          by (simp_all add: and_then_def convert_def)
        with Pair Inl have
          "trace rt' = trace rt @ [\<lparr>scope = name_scopes rt, ctrl = control_inputs rt,
            call = TfConvertToTensor grad, ret = Raised e\<rparr>]"
          "name_scopes rt' = name_scopes rt" "control_inputs rt' = control_inputs rt"
          by (auto simp: extern_Inl convert_def)
        with True r show thesis by (intro convert_raised[of e]) simp_all
      next
        case (Inr h)
        with Pair have rt1: "trace rt1 = trace rt @ [\<lparr>scope = name_scopes rt,
              ctrl = control_inputs rt, call = TfConvertToTensor grad, ret = RTensor (Tensor h)\<rparr>]"
            "name_scopes rt1 = name_scopes rt" "control_inputs rt1 = control_inputs rt"
          by (auto simp: extern_Inr convert_def)
        have prep: "prepared sad (name_scopes rt) (control_inputs rt) grad (Tensor h)
            [\<lparr>scope = name_scopes rt, ctrl = control_inputs rt,
                  call = TfConvertToTensor grad, ret = RTensor (Tensor h)\<rparr>]"
          using True by (simp add: prepared_def)
        from Pair Inr True assms show thesis
          by (intro reduce[OF prep rt1])
             (auto simp add: and_then_def returning_def convert_def split: prod.splits sum.splits)
      qed
    qed
  qed
qed

lemma loop_trace:
  "allreduce_grads_loop env sad dd ds cmpr gs acc rt = (r, rt') \<Longrightarrow>
   \<exists>new r0. trace rt' = trace rt @ new \<and>
     reduction_trace sad dd ds cmpr (name_scopes rt) (control_inputs rt) gs r0 new \<and>
     r = map_sum id ((@) acc) r0 \<and>
     name_scopes rt' = name_scopes rt \<and> control_inputs rt' = control_inputs rt"
proof (induction gs arbitrary: acc rt)
  case Nil
  have "reduction_trace sad dd ds cmpr (name_scopes rt) (control_inputs rt) [] (Inr []) []"
    by (rule reduction_trace.finished)
  with Nil show ?case by (intro exI[of _ "[]"] exI[of _ "Inr []"]) auto
next
  case (Cons g gs)
  show ?case
  proof (cases g)
    case None
    with Cons.prems have "allreduce_grads_loop env sad dd ds cmpr gs (acc @ [None]) rt = (r, rt')"
      by simp
    from Cons.IH[OF this] obtain new r0 where ih: "trace rt' = trace rt @ new"
      "reduction_trace sad dd ds cmpr (name_scopes rt) (control_inputs rt) gs r0 new"
      "r = map_sum id ((@) (acc @ [None])) r0"
      "name_scopes rt' = name_scopes rt" "control_inputs rt' = control_inputs rt"
      by blast
    have "reduction_trace sad dd ds cmpr (name_scopes rt) (control_inputs rt) (g # gs)
        (map_sum id (Cons None) r0) new"
      unfolding None using ih(2) by (rule reduction_trace.null)
    moreover have "r = map_sum id ((@) acc) (map_sum id (Cons None) r0)"
      using ih(3) by (cases r0) simp_all
    ultimately show ?thesis using ih(1,4,5) by blast
  next
    case (Some grad)
    from Cons.prems[unfolded Some] show ?thesis
    proof (cases rule: loop_step)
      case (convert_raised e)
      have "reduction_trace sad dd ds cmpr (name_scopes rt) (control_inputs rt) (g # gs) (Inl e)
          [\<lparr>scope = name_scopes rt, ctrl = control_inputs rt,
            call = TfConvertToTensor grad, ret = Raised e\<rparr>]"
        unfolding Some using convert_raised(1,2) by (rule reduction_trace.convert_raised)
      moreover have "r = map_sum id ((@) acc) (Inl e)" using convert_raised(3) by simp
      ultimately show ?thesis using convert_raised(4,5,6) by blast
    next
      case (allreduce_raised e grad' pre)
      have "reduction_trace sad dd ds cmpr (name_scopes rt) (control_inputs rt) (g # gs) (Inl e)
          (pre @ [\<lparr>scope = name_scopes rt, ctrl = control_inputs rt,
            call = HvdAllreduce grad' dd ds cmpr, ret = Raised e\<rparr>])"
        unfolding Some using allreduce_raised(1) by (rule reduction_trace.allreduce_raised)
      moreover have "r = map_sum id ((@) acc) (Inl e)" using allreduce_raised(2) by simp
      ultimately show ?thesis using allreduce_raised(3,4,5) by blast
    next
      case (continue avg grad' pre rt2)
      from Cons.IH[OF continue(2)] obtain new r0 where ih: "trace rt' = trace rt2 @ new"
        "reduction_trace sad dd ds cmpr (name_scopes rt2) (control_inputs rt2) gs r0 new"
        "r = map_sum id ((@) (acc @ [Some avg])) r0"
        "name_scopes rt' = name_scopes rt2" "control_inputs rt' = control_inputs rt2"
        by blast
      have "reduction_trace sad dd ds cmpr (name_scopes rt) (control_inputs rt) (g # gs)
          (map_sum id (Cons (Some avg)) r0)
          (pre @ \<lparr>scope = name_scopes rt, ctrl = control_inputs rt,
            call = HvdAllreduce grad' dd ds cmpr, ret = RTensor avg\<rparr> # new)"
        unfolding Some using ih(2) continue(1) unfolding continue(4,5)
        by (rule reduction_trace.reduced)
      moreover have "r = map_sum id ((@) acc) (map_sum id (Cons (Some avg)) r0)"
        using ih(3) by (cases r0) simp_all
      moreover have "trace rt' = trace rt @ pre @ \<lparr>scope = name_scopes rt, ctrl = control_inputs rt,
            call = HvdAllreduce grad' dd ds cmpr, ret = RTensor avg\<rparr> # new"
        using ih(1) continue(3) by simp
      ultimately show ?thesis using ih(4,5) continue(4,5) by metis
    qed
  qed
qed


lemma allreduce_calls_simps [simp]:
  "allreduce_calls [] = []"
  "allreduce_calls (e # es) = (if allreduce_arg (call e) \<noteq> None then e # allreduce_calls es else allreduce_calls es)"
  "allreduce_calls (es @ es') = allreduce_calls es @ allreduce_calls es'"
  by (simp_all add: allreduce_calls_def)

lemma convert_calls_simps [simp]:
  "convert_calls [] = []"
  "convert_calls (e # es) = (if convert_arg (call e) \<noteq> None then e # convert_calls es else convert_calls es)"
  "convert_calls (es @ es') = convert_calls es @ convert_calls es'"
  by (simp_all add: convert_calls_def)


lemma reduction_trace_context:
  "reduction_trace sad dd ds cmpr sc ct gs r new \<Longrightarrow> \<forall>e\<in>set new. scope e = sc \<and> ctrl e = ct"
  by (induction rule: reduction_trace.induct) (auto simp: prepared_def split: if_splits)

lemma reduction_trace_dense:
  "reduction_trace sad dd ds cmpr sc ct gs r new \<Longrightarrow> sad \<Longrightarrow>
   (\<forall>e\<in>set new. \<forall>t. allreduce_arg (call e) = Some t \<longrightarrow> \<not> is_IndexedSlices t) \<and>
   (\<forall>i<length new. \<forall>g t. call (new ! i) = TfConvertToTensor g \<and> ret (new ! i) = RTensor t \<longrightarrow>
      Suc i < length new \<and> call (new ! Suc i) = HvdAllreduce t dd ds cmpr) \<and>
   (case r of
      Inr out \<Rightarrow> map (\<lambda>e. convert_arg (call e)) (convert_calls new) =
        filter (\<lambda>g. case g of Some t \<Rightarrow> is_IndexedSlices t | None \<Rightarrow> False) gs
    | Inl e \<Rightarrow> True)"
proof (induction rule: reduction_trace.induct)
  case finished
  show ?case by simp
next
  case (null gs r new)
  then show ?case by (cases r) simp_all
next
  case (reduced gs r new g g' pre avg)
  show ?case
  proof (cases "is_IndexedSlices g")
    case True
    with reduced.hyps reduced.prems obtain h where
      "g' = Tensor h" "pre = [\<lparr>scope = sc, ctrl = ct, call = TfConvertToTensor g, ret = RTensor (Tensor h)\<rparr>]"
      by (auto simp: prepared_def)
    with reduced.IH reduced.prems True show ?thesis
      by (cases r) (auto simp: nth_Cons split: nat.splits)
  next
    case False
    with reduced.hyps have "g' = g" "pre = []" by (auto simp: prepared_def)
    with reduced.IH reduced.prems False show ?thesis
      by (cases r) (auto simp: nth_Cons split: nat.splits)
  qed
next
  case (allreduce_raised g g' pre gs e)
  then show ?case by (auto simp: prepared_def nth_Cons split: if_splits nat.splits)
next
  case (convert_raised g gs e)
  show ?case by simp
qed

lemma reduction_trace_sparse:
  "reduction_trace sad dd ds cmpr sc ct gs r new \<Longrightarrow> \<not> sad \<Longrightarrow>
   convert_calls new = [] \<and>
   (case r of
      Inr out \<Rightarrow> map (\<lambda>e. allreduce_arg (call e)) (allreduce_calls new) = filter (\<lambda>g. g \<noteq> None) gs
    | Inl e \<Rightarrow> True)"
proof (induction rule: reduction_trace.induct)
  case finished
  show ?case by simp
next
  case (null gs r new)
  then show ?case by (cases r) simp_all
next
  case (reduced gs r new g g' pre avg)
  then show ?case by (cases r) (auto simp: prepared_def)
next
  case (allreduce_raised g g' pre gs e)
  then show ?case by (auto simp: prepared_def)
next
  case (convert_raised g gs e)
  then show ?case by simp
qed



lemma issued_append: "trace rt' = trace rt @ new \<Longrightarrow> issued rt rt' = new"
  by (simp add: issued_def)

lemma make_allreduce_grads_fn_trace:
  assumes "make_allreduce_grads_fn env ns sad dd ds cmpr gs rt = (r, rt')"
  shows "(\<exists>e. r = Inl e \<and>
            trace rt' = trace rt @ [\<lparr>scope = name_scopes rt, ctrl = control_inputs rt,
              call = TfNameScope ns, ret = Raised e\<rparr>])
       \<or> (\<exists>new. trace rt' = trace rt @ \<lparr>scope = name_scopes rt, ctrl = control_inputs rt,
              call = TfNameScope ns, ret = RNone\<rparr> # new \<and>
            reduction_trace sad dd ds cmpr (name_scopes rt @ [ns]) (control_inputs rt) gs r new)"
proof (cases "extern (TfNameScope ns) (\<lambda>_. RNone) (tf_name_scope env ns) rt")
  case (Pair a rt1)
  show ?thesis
  proof (cases a)
    case (Inl e)
    with Pair assms have "r = Inl e" "rt' = rt1"
      by (simp_all add: make_allreduce_grads_fn_def with_name_scope_def)
    with Pair Inl show ?thesis by (auto simp: extern_Inl)
  next
    case (Inr u)
    define rt1' where "rt1' = rt1\<lparr>name_scopes := name_scopes rt1 @ [ns]\<rparr>"
    obtain r2 rt2 where loop: "allreduce_grads_loop env sad dd ds cmpr gs [] rt1' = (r2, rt2)"
      by (cases "allreduce_grads_loop env sad dd ds cmpr gs [] rt1'") blast
    with Pair Inr assms have r: "r = r2" and rt': "rt' = rt2\<lparr>name_scopes := name_scopes rt1\<rparr>"
      by (simp_all add: make_allreduce_grads_fn_def with_name_scope_def rt1'_def)
    from Pair Inr have rt1: "trace rt1 = trace rt @ [\<lparr>scope = name_scopes rt, ctrl = control_inputs rt,
              call = TfNameScope ns, ret = RNone\<rparr>]" "name_scopes rt1 = name_scopes rt"
            "control_inputs rt1 = control_inputs rt"
      by (auto simp: extern_Inr)
    from loop_trace[OF loop] obtain new r0 where
      "trace rt2 = trace rt1' @ new"
      "reduction_trace sad dd ds cmpr (name_scopes rt1') (control_inputs rt1') gs r0 new"
      "r2 = map_sum id ((@) []) r0"
      by blast
    moreover have "map_sum id ((@) []) r0 = r0" by (cases r0) simp_all
    ultimately show ?thesis using r rt' rt1 by (auto simp: rt1'_def)
  qed
qed



text \<open>
  C5. With \<^verbatim>\<open>sparse_as_dense\<close> set, no \<^verbatim>\<open>tf.IndexedSlices\<close> is ever submitted to
  \<^verbatim>\<open>hvd.allreduce\<close>: the sparse gradients are the ones \<^verbatim>\<open>tf.convert_to_tensor\<close> is
  called on, in order, and the dense tensor a conversion returns is what the next call
  submits. With the flag unset there is no conversion, and the tensors submitted are
  the gradients that are not \<^verbatim>\<open>None\<close>, as they are, sparse ones included.
\<close>

theorem sparse_as_dense_conversion:
  assumes "make_allreduce_grads_fn env name_scope sad dd ds cmpr gradients rt = (r, rt')"
  shows "(sad \<longrightarrow>
           (\<forall>e\<in>set (issued rt rt'). \<forall>t. allreduce_arg (call e) = Some t \<longrightarrow> \<not> is_IndexedSlices t) \<and>
           (\<forall>i<length (issued rt rt'). \<forall>g t.
              call (issued rt rt' ! i) = TfConvertToTensor g \<and> ret (issued rt rt' ! i) = RTensor t \<longrightarrow>
              Suc i < length (issued rt rt') \<and>
              call (issued rt rt' ! Suc i) = HvdAllreduce t dd ds cmpr) \<and>
           (\<forall>averaged. r = Inr averaged \<longrightarrow>
              map (\<lambda>e. convert_arg (call e)) (convert_calls (issued rt rt')) =
              filter (\<lambda>g. case g of Some t \<Rightarrow> is_IndexedSlices t | None \<Rightarrow> False) gradients))
       \<and> (\<not> sad \<longrightarrow>
           convert_calls (issued rt rt') = [] \<and>
           (\<forall>averaged. r = Inr averaged \<longrightarrow>
              map (\<lambda>e. allreduce_arg (call e)) (allreduce_calls (issued rt rt')) =
              filter (\<lambda>g. g \<noteq> None) gradients))"
  using make_allreduce_grads_fn_trace[OF assms]
proof (elim disjE exE conjE)
  fix e
  assume "r = Inl e" "trace rt' = trace rt @ [\<lparr>scope = name_scopes rt, ctrl = control_inputs rt,
              call = TfNameScope name_scope, ret = Raised e\<rparr>]"
  then show ?thesis by (simp add: issued_append)
next
  fix new
  assume t: "trace rt' = trace rt @ \<lparr>scope = name_scopes rt, ctrl = control_inputs rt,
              call = TfNameScope name_scope, ret = RNone\<rparr> # new"
    and rt: "reduction_trace sad dd ds cmpr (name_scopes rt @ [name_scope]) (control_inputs rt) gradients r new"
  show ?thesis
  proof (cases sad)
    case True
    from reduction_trace_dense[OF rt True] issued_append[OF t] True show ?thesis
      by (cases r) (auto simp: nth_Cons split: nat.splits)
  next
    case False
    from reduction_trace_sparse[OF rt False] issued_append[OF t] False show ?thesis
      by (cases r) auto
  qed
qed

theorem sparse_as_dense_conversion_witness:
  "map (\<lambda>e. convert_arg (call e)) (convert_calls (issued sample_runtime
     (snd (make_allreduce_grads_fn (sample_env 2 False) ''Adam_Allreduce'' True [] [] 0
          [Some (Tensor 10), None, Some (IndexedSlices 11)] sample_runtime)))) =
     [Some (IndexedSlices 11)] \<and>
   map (\<lambda>e. allreduce_arg (call e)) (allreduce_calls (issued sample_runtime
     (snd (make_allreduce_grads_fn (sample_env 2 False) ''Adam_Allreduce'' False [] [] 0
          [Some (Tensor 10), None, Some (IndexedSlices 11)] sample_runtime)))) =
     [Some (Tensor 10), Some (IndexedSlices 11)]"
proof -
  define dense where "dense = make_allreduce_grads_fn (sample_env 2 False) ''Adam_Allreduce'' True [] [] 0
          [Some (Tensor 10), None, Some (IndexedSlices 11)] sample_runtime"
  define sparse where "sparse = make_allreduce_grads_fn (sample_env 2 False) ''Adam_Allreduce'' False [] [] 0
          [Some (Tensor 10), None, Some (IndexedSlices 11)] sample_runtime"
  have "fst (make_allreduce_grads_fn (sample_env 2 False) ''Adam_Allreduce'' True [] [] 0
          [Some (Tensor 10), None, Some (IndexedSlices 11)] sample_runtime) =
     Inr [Some (Tensor 0), None, Some (Tensor 2)]"
    by code_simp
  then have d: "make_allreduce_grads_fn (sample_env 2 False) ''Adam_Allreduce'' True [] [] 0
          [Some (Tensor 10), None, Some (IndexedSlices 11)] sample_runtime =
     (Inr [Some (Tensor 0), None, Some (Tensor 2)], snd dense)"
    unfolding dense_def by (metis prod.collapse)
  have "fst (make_allreduce_grads_fn (sample_env 2 False) ''Adam_Allreduce'' False [] [] 0
          [Some (Tensor 10), None, Some (IndexedSlices 11)] sample_runtime) =
     Inr [Some (Tensor 0), None, Some (IndexedSlices 1)]"
    by code_simp
  then have s: "make_allreduce_grads_fn (sample_env 2 False) ''Adam_Allreduce'' False [] [] 0
          [Some (Tensor 10), None, Some (IndexedSlices 11)] sample_runtime =
     (Inr [Some (Tensor 0), None, Some (IndexedSlices 1)], snd sparse)"
    unfolding sparse_def by (metis prod.collapse)
  from sparse_as_dense_conversion[OF d]
  have "map (\<lambda>e. convert_arg (call e)) (convert_calls (issued sample_runtime (snd dense))) =
      [Some (IndexedSlices 11)]"
    by simp
  moreover from sparse_as_dense_conversion[OF s]
  have "map (\<lambda>e. allreduce_arg (call e)) (allreduce_calls (issued sample_runtime (snd sparse))) =
      [Some (Tensor 10), Some (IndexedSlices 11)]"
    by simp
  ultimately show ?thesis unfolding dense_def sparse_def by (rule conjI)
qed

section \<open>Properties of the distributed optimizer\<close>

lemma and_then_cases:
  assumes "and_then m k rt = (r, rt')"
  obtains (raised) e where "m rt = (Inl e, rt')" "r = Inl e"
  | (returned) x rt1 where "m rt = (Inr x, rt1)" "k x rt1 = (r, rt')"
  using assms by (auto simp: and_then_def split: prod.splits sum.splits)

lemma identity_all_trace:
  "identity_all env gs acc rt = (Inr out, rt') \<Longrightarrow>
   \<exists>out'. out = acc @ map Some out' \<and> length out' = length gs \<and> None \<notin> set gs \<and>
     trace rt' = trace rt @
       map (\<lambda>(g, t). \<lparr>scope = name_scopes rt, ctrl = control_inputs rt, call = TfIdentity g,
                        ret = RTensor t\<rparr>) (zip gs out') \<and>
     name_scopes rt' = name_scopes rt \<and> control_inputs rt' = control_inputs rt"
proof (induction gs arbitrary: acc rt)
  case Nil
  then show ?case by simp
next
  case (Cons g gs)
  from Cons.prems obtain t rt1 where step: "tf_identity_call env g rt = (Inr t, rt1)"
    and rest: "identity_all env gs (acc @ [Some t]) rt1 = (Inr out, rt')"
    by (auto split: prod.splits sum.splits)
  from step have g: "g \<noteq> None"
    and rt1: "trace rt1 = trace rt @ [\<lparr>scope = name_scopes rt, ctrl = control_inputs rt,
        call = TfIdentity g, ret = RTensor t\<rparr>]"
      "name_scopes rt1 = name_scopes rt" "control_inputs rt1 = control_inputs rt"
    by (auto simp: tf_identity_call_def extern_Inr split: option.splits)
  from Cons.IH[OF rest] obtain out' where ih: "out = (acc @ [Some t]) @ map Some out'"
    "length out' = length gs" "None \<notin> set gs"
    "trace rt' = trace rt1 @
       map (\<lambda>(g, t). \<lparr>scope = name_scopes rt1, ctrl = control_inputs rt1, call = TfIdentity g,
                        ret = RTensor t\<rparr>) (zip gs out')"
    "name_scopes rt' = name_scopes rt1" "control_inputs rt' = control_inputs rt1"
    by blast
  show ?case
    using g rt1 ih by (intro exI[of _ "t # out'"]) auto
qed


lemma extern_result:
  assumes "extern c g f rt = (r, rt')"
  shows "trace rt' = trace rt @ [recorded rt [] c (case r of Inl e \<Rightarrow> Raised e | Inr x \<Rightarrow> g x)]"
    and "name_scopes rt' = name_scopes rt" and "control_inputs rt' = control_inputs rt"
  using assms by (auto simp: extern_def recorded_def split: prod.splits)

lemma with_control_dependencies_cases:
  assumes "with_control_dependencies inputs body rt = (r, rt')"
  obtains (refused) "None \<in> set inputs" "r = Inl TypeError"
      "trace rt' = trace rt @ [recorded rt [] (TfControlDependencies inputs) (Raised TypeError)]"
      "name_scopes rt' = name_scopes rt" "control_inputs rt' = control_inputs rt"
  | (entered) rt1 rt2 where "None \<notin> set inputs"
      "trace rt1 = trace rt @ [recorded rt [] (TfControlDependencies inputs) RNone]"
      "name_scopes rt1 = name_scopes rt"
      "control_inputs rt1 = control_inputs rt @ map the inputs"
      "body rt1 = (r, rt2)"
      "trace rt' = trace rt2" "name_scopes rt' = name_scopes rt2"
      "control_inputs rt' = control_inputs rt"
proof (cases "None \<in> set inputs")
  case True
  with assms have "r = Inl TypeError"
      "trace rt' = trace rt @ [recorded rt [] (TfControlDependencies inputs) (Raised TypeError)]"
      "name_scopes rt' = name_scopes rt" "control_inputs rt' = control_inputs rt"
    by (auto simp: with_control_dependencies_def extern_def recorded_def)
  with True show ?thesis by (rule refused)
next
  case False
  define rt1 where "rt1 = rt\<lparr>trace := trace rt @ [recorded rt [] (TfControlDependencies inputs) RNone],
    control_inputs := control_inputs rt @ map the inputs\<rparr>"
  obtain r2 rt2 where body: "body rt1 = (r2, rt2)" by (cases "body rt1") blast
  have "with_control_dependencies inputs body rt = (r2, rt2\<lparr>control_inputs := control_inputs rt\<rparr>)"
    using False body
    by (simp add: with_control_dependencies_def extern_def recorded_def rt1_def)
  with assms have "r = r2" "rt' = rt2\<lparr>control_inputs := control_inputs rt\<rparr>" by simp_all
  with body have "body rt1 = (r, rt2)" "trace rt' = trace rt2" "name_scopes rt' = name_scopes rt2"
      "control_inputs rt' = control_inputs rt"
    by simp_all
  moreover have "trace rt1 = trace rt @ [recorded rt [] (TfControlDependencies inputs) RNone]"
      "name_scopes rt1 = name_scopes rt"
      "control_inputs rt1 = control_inputs rt @ map the inputs"
    by (simp_all add: rt1_def)
  ultimately show ?thesis using False by (intro entered[of rt1 rt2]) simp_all
qed


lemma identity_all_raised:
  "identity_all env gs acc rt = (Inl e, rt') \<Longrightarrow>
   \<exists>new. trace rt' = trace rt @ new \<and> new \<noteq> [] \<and> ret (last new) = Raised e \<and>
     (\<forall>x\<in>set new. (\<exists>g. call x = TfIdentity g) \<and> ctrl x = control_inputs rt \<and>
        scope x = name_scopes rt)"
proof (induction gs arbitrary: acc rt)
  case Nil
  then show ?case by simp
next
  case (Cons g gs)
  obtain a rt1 where step: "tf_identity_call env g rt = (a, rt1)"
    by (cases "tf_identity_call env g rt") blast
  then have rt1: "trace rt1 = trace rt @
        [recorded rt [] (TfIdentity g) (case a of Inl e \<Rightarrow> Raised e | Inr x \<Rightarrow> RTensor x)]"
      "name_scopes rt1 = name_scopes rt" "control_inputs rt1 = control_inputs rt"
    by (auto simp: tf_identity_call_def dest: extern_result split: option.splits)
  show ?case
  proof (cases a)
    case (Inl e')
    with step Cons.prems have "e' = e" "rt' = rt1" by simp_all
    with rt1 Inl show ?thesis by (auto simp: recorded_def)
  next
    case (Inr t)
    with step Cons.prems have "identity_all env gs (acc @ [Some t]) rt1 = (Inl e, rt')" by simp
    from Cons.IH[OF this] obtain new where ih: "trace rt' = trace rt1 @ new" "new \<noteq> []"
      "ret (last new) = Raised e"
      "\<forall>x\<in>set new. (\<exists>g. call x = TfIdentity g) \<and> ctrl x = control_inputs rt1 \<and>
        scope x = name_scopes rt1"
      by blast
    from ih(4) rt1 have "\<forall>x\<in>set new. (\<exists>g. call x = TfIdentity g) \<and> ctrl x = control_inputs rt \<and>
        scope x = name_scopes rt"
      by simp
    with ih(1,2,3) rt1 Inr show ?thesis
      by (intro exI[of _ "recorded rt [] (TfIdentity g) (RTensor t) # new"])
         (auto simp: recorded_def)
  qed
qed

lemma deferred_allreduce_cases:
  assumes deferred: "\<not> self_executing_eagerly self"
    and many: "1 < hvd_size env (world rt)"
    and grads: "self_grads self = Some gs"
    and run: "DistributedOptimizer_allreduce env self rt = (r, self', rt')"
  obtains
    (session_raised) e where "r = Inl e"
      "trace rt' = trace rt @ [recorded rt [] TfGetSession (Raised e)]"
  | (init_raised) e sess where "r = Inl e"
      "trace rt' = trace rt @
         [recorded rt [] TfGetSession (RObject sess),
          recorded rt [] (AggInitAggregationVars gs sess) (Raised e)]"
  | (start_raised) e sess where "r = Inl e"
      "trace rt' = trace rt @
         [recorded rt [] TfGetSession (RObject sess),
          recorded rt [] (AggInitAggregationVars gs sess) RNone,
          recorded rt [] ProfileStart (Raised e)]"
  | (compute_raised) e sess started where "r = Inl e"
      "trace rt' = trace rt @
         [recorded rt [] TfGetSession (RObject sess),
          recorded rt [] (AggInitAggregationVars gs sess) RNone,
          recorded rt [] ProfileStart (RObject started),
          recorded rt [] (TfControlDependencies [Some (COperation started)]) RNone,
          recorded rt [COperation started] (AggComputeGradients gs) (Raised e)]"
  | (null_reduced) sess started allreduced where "r = Inl TypeError" "None \<in> set allreduced"
      "trace rt' = trace rt @
         [recorded rt [] TfGetSession (RObject sess),
          recorded rt [] (AggInitAggregationVars gs sess) RNone,
          recorded rt [] ProfileStart (RObject started),
          recorded rt [] (TfControlDependencies [Some (COperation started)]) RNone,
          recorded rt [COperation started] (AggComputeGradients gs) (RGradients allreduced),
          recorded rt [] (TfControlDependencies (map (map_option CTensor) allreduced))
            (Raised TypeError)]"
  | (end_raised) e sess started allreduced where "r = Inl e" "None \<notin> set allreduced"
      "trace rt' = trace rt @
         [recorded rt [] TfGetSession (RObject sess),
          recorded rt [] (AggInitAggregationVars gs sess) RNone,
          recorded rt [] ProfileStart (RObject started),
          recorded rt [] (TfControlDependencies [Some (COperation started)]) RNone,
          recorded rt [COperation started] (AggComputeGradients gs) (RGradients allreduced),
          recorded rt [] (TfControlDependencies (map (map_option CTensor) allreduced)) RNone,
          recorded rt (map (\<lambda>g. CTensor (the g)) allreduced) ProfileEnd (Raised e)]"
  | (identity_raised) e sess started allreduced comm_end new where "r = Inl e"
      "None \<notin> set allreduced"
      "trace rt' = trace rt @
         [recorded rt [] TfGetSession (RObject sess),
          recorded rt [] (AggInitAggregationVars gs sess) RNone,
          recorded rt [] ProfileStart (RObject started),
          recorded rt [] (TfControlDependencies [Some (COperation started)]) RNone,
          recorded rt [COperation started] (AggComputeGradients gs) (RGradients allreduced),
          recorded rt [] (TfControlDependencies (map (map_option CTensor) allreduced)) RNone,
          recorded rt (map (\<lambda>g. CTensor (the g)) allreduced) ProfileEnd (RObject comm_end),
          recorded rt [] (TfControlDependencies [Some (COperation comm_end)]) RNone] @ new"
      "new \<noteq> []" "ret (last new) = Raised e"
      "\<forall>x\<in>set new. (\<exists>g. call x = TfIdentity g) \<and>
         ctrl x = control_inputs rt @ [COperation comm_end] \<and> scope x = name_scopes rt"
  | (returned) sess started allreduced comm_end out where "r = Inr (map Some out)"
      "None \<notin> set allreduced" "length out = length allreduced"
      "trace rt' = trace rt @
         [recorded rt [] TfGetSession (RObject sess),
          recorded rt [] (AggInitAggregationVars gs sess) RNone,
          recorded rt [] ProfileStart (RObject started),
          recorded rt [] (TfControlDependencies [Some (COperation started)]) RNone,
          recorded rt [COperation started] (AggComputeGradients gs) (RGradients allreduced),
          recorded rt [] (TfControlDependencies (map (map_option CTensor) allreduced)) RNone,
          recorded rt (map (\<lambda>g. CTensor (the g)) allreduced) ProfileEnd (RObject comm_end),
          recorded rt [] (TfControlDependencies [Some (COperation comm_end)]) RNone] @
         map (\<lambda>(g, t). recorded rt [COperation comm_end] (TfIdentity g) (RTensor t))
           (zip allreduced out)"
proof -
  define self1 where "self1 = self\<lparr>self_aggregated_gradients := True\<rparr>"
  have read: "read_grads self1 x = (Inr gs, x)" for x :: "'a runtime"
    using grads by (simp add: read_grads_def self1_def)
  have read_then: "and_then (read_grads self1) k = k gs" for k :: "gradient list \<Rightarrow> ('a, 'b) action"
    by (rule ext) (simp add: and_then_def read)
  define after_start where "after_start = (\<lambda>started.
      and_then (with_control_dependencies [Some (COperation started)]
                  (extern (AggComputeGradients gs) RGradients (agg_compute_gradients env gs)))
        (\<lambda>allreduced_grads.
      and_then (with_control_dependencies (map (map_option CTensor) allreduced_grads)
                  (extern ProfileEnd RObject (profile_end env))) (\<lambda>comm_end.
      with_control_dependencies [Some (COperation comm_end)]
        (identity_all env allreduced_grads []))))"
  define after_init where "after_init =
      and_then (extern ProfileStart RObject (profile_start env)) after_start"
  define after_session where "after_session = (\<lambda>sess.
      and_then (extern (AggInitAggregationVars gs sess) (\<lambda>_. RNone)
                  (agg_init_aggregation_vars env gs sess)) (\<lambda>_. after_init))"
  have deferred1: "\<not> self_executing_eagerly self1"
    using deferred by (simp add: self1_def)
  have chain: "and_then (extern TfGetSession RObject (tf_get_session env)) after_session rt = (r, rt')"
    using run deferred1 many
    unfolding DistributedOptimizer_allreduce_def Let_def self1_def [symmetric]
    by (simp add: read_then after_session_def after_init_def after_start_def split: prod.splits)
  from chain show thesis
  proof (cases rule: and_then_cases)
    case (raised e)
    from extern_result[OF raised(1)] raised(2) show thesis
      by (intro session_raised[where e = e]) simp_all
  next
    case session: (returned sess rt1)
    note rt1 = extern_result[OF session(1)]
    from session(2)[unfolded after_session_def] show thesis
    proof (cases rule: and_then_cases)
      case (raised e)
      from extern_result[OF raised(1)] raised(2) rt1 show thesis
        by (intro init_raised[where e = e and sess = sess]) (simp_all add: recorded_def)
    next
      case init: (returned u rt2)
      have rt2: "trace rt2 = trace rt @
         [recorded rt [] TfGetSession (RObject sess),
          recorded rt [] (AggInitAggregationVars gs sess) RNone]"
        "name_scopes rt2 = name_scopes rt" "control_inputs rt2 = control_inputs rt"
        using extern_result[OF init(1)] rt1 by (simp_all add: recorded_def)
      from init(2)[unfolded after_init_def] show thesis
      proof (cases rule: and_then_cases)
        case (raised e)
        from extern_result[OF raised(1)] raised(2) rt2 show thesis
          by (intro start_raised[where e = e and sess = sess]) (simp_all add: recorded_def)
      next
        case start: (returned started rt3)
        have rt3: "trace rt3 = trace rt @
           [recorded rt [] TfGetSession (RObject sess),
            recorded rt [] (AggInitAggregationVars gs sess) RNone,
            recorded rt [] ProfileStart (RObject started)]"
          "name_scopes rt3 = name_scopes rt" "control_inputs rt3 = control_inputs rt"
          using extern_result[OF start(1)] rt2 by (simp_all add: recorded_def)
        have none_conv: "None \<in> set (map (map_option CTensor) xs) \<longleftrightarrow> None \<in> set xs"
          for xs :: "gradient list"
          by (induction xs) auto
        have the_conv: "map the (map (map_option CTensor) xs) = map (\<lambda>g. CTensor (the g)) xs"
          if "None \<notin> set xs" for xs :: "gradient list"
          using that by (induction xs) (auto simp: option.map_sel)
        from start(2)[unfolded after_start_def] show thesis
        proof (cases rule: and_then_cases)
          case (raised e)
          from raised(1) show thesis
          proof (cases rule: with_control_dependencies_cases)
            case refused
            then show thesis by simp
          next
            case (entered rt4 rt5)
            from extern_result[OF entered(5)] entered raised(2) rt3 show thesis
              by (intro compute_raised[where e = e and sess = sess and started = started]) (simp_all add: recorded_def)
          qed
        next
          case compute: (returned allreduced rt6)
          from compute(1) show thesis
          proof (cases rule: with_control_dependencies_cases)
            case refused
            then show thesis by simp
          next
            case cd1: (entered rt4 rt5)
            have rt6: "trace rt6 = trace rt @
               [recorded rt [] TfGetSession (RObject sess),
                recorded rt [] (AggInitAggregationVars gs sess) RNone,
                recorded rt [] ProfileStart (RObject started),
                recorded rt [] (TfControlDependencies [Some (COperation started)]) RNone,
                recorded rt [COperation started] (AggComputeGradients gs) (RGradients allreduced)]"
              "name_scopes rt6 = name_scopes rt" "control_inputs rt6 = control_inputs rt"
              using extern_result[OF cd1(5)] cd1 rt3 by (simp_all add: recorded_def)
            from compute(2) show thesis
            proof (cases rule: and_then_cases)
              case (raised e)
              from raised(1) show thesis
              proof (cases rule: with_control_dependencies_cases)
                case refused
                note dirty = refused(1)[unfolded none_conv]
                from refused dirty raised(2) rt6 show thesis
                  by (intro null_reduced[where sess = sess and started = started and allreduced = allreduced])
                     (simp_all add: recorded_def)
              next
                case (entered rt7 rt8)
                note clean = entered(1)[unfolded none_conv]
                from extern_result[OF entered(5)] entered raised(2) rt6 the_conv[OF clean] clean
                show thesis
                  by (intro end_raised[where e = e and sess = sess and started = started and allreduced = allreduced]) (simp_all add: recorded_def)
              qed
            next
              case finish: (returned comm_end rt9)
              from finish(1) show thesis
              proof (cases rule: with_control_dependencies_cases)
                case refused
                then show thesis by simp
              next
                case cd2: (entered rt7 rt8)
                note clean = cd2(1)[unfolded none_conv]
                have rt9: "trace rt9 = trace rt @
                   [recorded rt [] TfGetSession (RObject sess),
                    recorded rt [] (AggInitAggregationVars gs sess) RNone,
                    recorded rt [] ProfileStart (RObject started),
                    recorded rt [] (TfControlDependencies [Some (COperation started)]) RNone,
                    recorded rt [COperation started] (AggComputeGradients gs) (RGradients allreduced),
                    recorded rt [] (TfControlDependencies (map (map_option CTensor) allreduced)) RNone,
                    recorded rt (map (\<lambda>g. CTensor (the g)) allreduced) ProfileEnd (RObject comm_end)]"
                  "name_scopes rt9 = name_scopes rt" "control_inputs rt9 = control_inputs rt"
                  using extern_result[OF cd2(5)] cd2 rt6 the_conv[OF clean]
                  by (simp_all add: recorded_def)
                from finish(2) show thesis
                proof (cases rule: with_control_dependencies_cases)
                  case refused
                  then show thesis by simp
                next
                  case cd3: (entered rt10 rt11)
                  have rt10: "trace rt10 = trace rt @
                     [recorded rt [] TfGetSession (RObject sess),
                      recorded rt [] (AggInitAggregationVars gs sess) RNone,
                      recorded rt [] ProfileStart (RObject started),
                      recorded rt [] (TfControlDependencies [Some (COperation started)]) RNone,
                      recorded rt [COperation started] (AggComputeGradients gs) (RGradients allreduced),
                      recorded rt [] (TfControlDependencies (map (map_option CTensor) allreduced)) RNone,
                      recorded rt (map (\<lambda>g. CTensor (the g)) allreduced) ProfileEnd (RObject comm_end),
                      recorded rt [] (TfControlDependencies [Some (COperation comm_end)]) RNone]"
                    "recorded rt10 [] = recorded rt [COperation comm_end]"
                    using cd3 rt9 by (simp_all add: recorded_def fun_eq_iff)
                  show thesis
                  proof (cases r)
                    case (Inl e)
                    from identity_all_raised[OF cd3(5)[unfolded Inl]] obtain new where
                      "trace rt11 = trace rt10 @ new" "new \<noteq> []" "ret (last new) = Raised e"
                      "\<forall>x\<in>set new. (\<exists>g. call x = TfIdentity g) \<and> ctrl x = control_inputs rt10 \<and>
                         scope x = name_scopes rt10"
                      by blast
                    with Inl clean cd3 rt9 rt10 show thesis
                      by (intro identity_raised[where e = e and sess = sess and started = started and allreduced = allreduced and comm_end = comm_end and new = new]) simp_all
                  next
                    case (Inr out0)
                    from identity_all_trace[OF cd3(5)[unfolded Inr]] obtain out where
                      "out0 = [] @ map Some out" "length out = length allreduced"
                      "trace rt11 = trace rt10 @
                         map (\<lambda>(g, t). \<lparr>scope = name_scopes rt10, ctrl = control_inputs rt10,
                                call = TfIdentity g, ret = RTensor t\<rparr>) (zip allreduced out)"
                      by blast
                    with Inr clean cd3 rt9 rt10(1) show thesis
                      by (intro returned[where sess = sess and started = started and allreduced = allreduced and comm_end = comm_end and out = out])
                         (simp_all add: recorded_def)
                  qed
                qed
              qed
            qed
          qed
        qed
      qed
    qed
  qed
qed

text \<open>
  C3. With one participant, \<^verbatim>\<open>_allreduce\<close> returns the stored gradients as they are, in
  eager and in deferred mode alike, and leaves the runtime as it found it: it calls no
  collaborator at all, so neither the collective, nor the aggregation helper, nor the
  profiling helper. Only the ordering flag of the instance changes.
\<close>

theorem allreduce_single_participant:
  assumes "hvd_size env (world rt) = 1" and "self_grads self = Some gs"
  shows "DistributedOptimizer_allreduce env self rt =
           (Inr gs, self\<lparr>self_aggregated_gradients := True\<rparr>, rt)
         \<and> issued rt (snd (snd (DistributedOptimizer_allreduce env self rt))) = []"
proof -
  have "DistributedOptimizer_allreduce env self rt =
           (Inr gs, self\<lparr>self_aggregated_gradients := True\<rparr>, rt)"
    using assms by (simp add: DistributedOptimizer_allreduce_def Let_def read_grads_def)
  then show ?thesis by (simp add: issued_def)
qed

theorem allreduce_single_participant_witness:
  "DistributedOptimizer_allreduce (sample_env 1 False)
     (sample_optimizer False\<lparr>self_grads := Some [Some (Tensor 5), None]\<rparr>) sample_runtime =
     (Inr [Some (Tensor 5), None],
      sample_optimizer False\<lparr>self_grads := Some [Some (Tensor 5), None],
                               self_aggregated_gradients := True\<rparr>,
      sample_runtime) \<and>
   DistributedOptimizer_allreduce (sample_env 1 True)
     (sample_optimizer True\<lparr>self_grads := Some [Some (Tensor 5), None]\<rparr>) sample_runtime =
     (Inr [Some (Tensor 5), None],
      sample_optimizer True\<lparr>self_grads := Some [Some (Tensor 5), None],
                               self_aggregated_gradients := True\<rparr>,
      sample_runtime)"
proof -
  have size: "hvd_size (sample_env 1 eager) (world sample_runtime) = 1" for eager
    by (simp add: sample_env_def)
  have grads: "self_grads (sample_optimizer eager\<lparr>self_grads := Some [Some (Tensor 5), None]\<rparr>) =
      Some [Some (Tensor 5), None]" for eager
    by simp
  from allreduce_single_participant[OF size grads, of False False]
    allreduce_single_participant[OF size grads, of True True]
  show ?thesis by simp
qed

text \<open>
  C4. In deferred mode with several participants, \<^verbatim>\<open>_allreduce\<close> never returns a
  \<^verbatim>\<open>None\<close>: whatever the collaborators do, it raises or returns tensors only
  (\<^verbatim>\<open>tf.control_dependencies\<close> refuses a \<^verbatim>\<open>None\<close> among the reduced gradients, and
  \<^verbatim>\<open>tf.identity\<close> returns a tensor). So for a batch with a \<^verbatim>\<open>None\<close> entry it does not
  complete with \<^verbatim>\<open>None\<close> at exactly the positions of the input.
\<close>

theorem deferred_allreduce_drops_null_gradients:
  assumes deferred: "\<not> self_executing_eagerly self"
    and many: "1 < hvd_size env (world rt)"
    and grads: "self_grads self = Some gs"
    and null: "None \<in> set gs"
    and run: "DistributedOptimizer_allreduce env self rt = (r, self', rt')"
  shows "\<not> (\<exists>out. r = Inr out \<and> length out = length gs \<and>
              (\<forall>i<length gs. (out ! i = None) = (gs ! i = None)))"
proof
  assume "\<exists>out. r = Inr out \<and> length out = length gs \<and>
              (\<forall>i<length gs. (out ! i = None) = (gs ! i = None))"
  then obtain out where out: "r = Inr out" "length out = length gs"
    "\<forall>i<length gs. (out ! i = None) = (gs ! i = None)" by blast
  from null obtain i where i: "i < length gs" "gs ! i = None"
    by (metis in_set_conv_nth)
  with out have "out ! i = None" "i < length out" by simp_all
  then have "None \<in> set out" by (metis nth_mem)
  moreover from deferred many grads run have "None \<notin> set out"
    by (cases rule: deferred_allreduce_cases) (use out(1) in auto)
  ultimately show False by contradiction
qed

theorem deferred_allreduce_drops_null_gradients_witness:
  "fst (DistributedOptimizer_allreduce (sample_env 2 False)
     (sample_optimizer False\<lparr>self_grads := Some [Some (Tensor 5), None]\<rparr>) sample_runtime) =
     Inl TypeError \<and>
   \<not> (\<exists>out. fst (DistributedOptimizer_allreduce (sample_env 2 False)
           (sample_optimizer False\<lparr>self_grads := Some [Some (Tensor 5), None]\<rparr>)
           sample_runtime) = Inr out \<and>
         length out = length [Some (Tensor 5), None] \<and>
         (\<forall>i<length [Some (Tensor 5), None].
            (out ! i = None) = ([Some (Tensor 5), None] ! i = None)))"
proof -
  define self where "self = sample_optimizer False\<lparr>self_grads := Some [Some (Tensor 5), None]\<rparr>"
  have r: "fst (DistributedOptimizer_allreduce (sample_env 2 False) self sample_runtime) =
      Inl TypeError"
    unfolding self_def by code_simp
  have deferred: "\<not> self_executing_eagerly self"
    by (simp add: self_def sample_optimizer_def)
  have many: "1 < hvd_size (sample_env 2 False) (world sample_runtime)"
    by (simp add: sample_env_def)
  have grads: "self_grads self = Some [Some (Tensor 5), None]"
    by (simp add: self_def)
  have null: "None \<in> set [Some (Tensor 5), None]" by simp
  have run: "DistributedOptimizer_allreduce (sample_env 2 False) self sample_runtime =
      (fst (DistributedOptimizer_allreduce (sample_env 2 False) self sample_runtime),
       fst (snd (DistributedOptimizer_allreduce (sample_env 2 False) self sample_runtime)),
       snd (snd (DistributedOptimizer_allreduce (sample_env 2 False) self sample_runtime)))"
    by simp
  from r deferred_allreduce_drops_null_gradients[OF deferred many grads null run]
  show ?thesis unfolding self_def by (rule conjI)
qed

text \<open>
  C6. In deferred mode with several participants, whatever the outcome of
  \<^verbatim>\<open>_allreduce\<close>: the helper's \<^verbatim>\<open>compute_gradients\<close> is called under the control input
  that \<^verbatim>\<open>profile_start\<close> returned; \<^verbatim>\<open>profile_end\<close> is called under the reduced
  gradients, all of them, as control inputs; and every \<^verbatim>\<open>tf.identity\<close> is called under
  the control input that \<^verbatim>\<open>profile_end\<close> returned. When the method returns, the calls
  it issued are exactly \<open>deferred_calls\<close>, in that order, and the tensors returned are
  the results of the \<^verbatim>\<open>tf.identity\<close> calls.
\<close>

theorem deferred_allreduce_dependency_edges:
  assumes deferred: "\<not> self_executing_eagerly self"
    and many: "1 < hvd_size env (world rt)"
    and grads: "self_grads self = Some gs"
    and run: "DistributedOptimizer_allreduce env self rt = (r, self', rt')"
  shows "trace rt' = trace rt @ issued rt rt' \<and>
    (\<forall>x\<in>set (issued rt rt'). \<forall>a. call x = AggComputeGradients a \<longrightarrow>
       (\<exists>started. ctrl x = control_inputs rt @ [COperation started] \<and>
          recorded rt [] ProfileStart (RObject started) \<in> set (issued rt rt'))) \<and>
    (\<forall>x\<in>set (issued rt rt'). call x = ProfileEnd \<longrightarrow>
       (\<exists>started allreduced. None \<notin> set allreduced \<and>
          ctrl x = control_inputs rt @ map (\<lambda>g. CTensor (the g)) allreduced \<and>
          recorded rt [COperation started] (AggComputeGradients gs) (RGradients allreduced)
            \<in> set (issued rt rt'))) \<and>
    (\<forall>x\<in>set (issued rt rt'). \<forall>g. call x = TfIdentity g \<longrightarrow>
       (\<exists>comm_end allreduced. ctrl x = control_inputs rt @ [COperation comm_end] \<and>
          recorded rt (map (\<lambda>g. CTensor (the g)) allreduced) ProfileEnd (RObject comm_end)
            \<in> set (issued rt rt'))) \<and>
    (\<forall>out. r = Inr out \<longrightarrow>
       (\<exists>sess started allreduced comm_end tensors.
          out = map Some tensors \<and> length tensors = length allreduced \<and>
          issued rt rt' = deferred_calls rt gs sess started allreduced comm_end tensors))"
  using deferred many grads run
proof (cases rule: deferred_allreduce_cases)
  case (session_raised e)
  from issued_append[OF session_raised(2)] session_raised show ?thesis
    by (simp add: recorded_def)
next
  case (init_raised e sess)
  from issued_append[OF init_raised(2)] init_raised show ?thesis
    by (simp add: recorded_def)
next
  case (start_raised e sess)
  from issued_append[OF start_raised(2)] start_raised show ?thesis
    by (simp add: recorded_def)
next
  case (compute_raised e sess started)
  from issued_append[OF compute_raised(2)] compute_raised show ?thesis
    by (simp add: recorded_def)
next
  case (null_reduced sess started allreduced)
  from issued_append[OF null_reduced(3)] null_reduced show ?thesis
    by (simp add: recorded_def)
next
  case (end_raised e sess started allreduced)
  from issued_append[OF end_raised(3)] end_raised show ?thesis
    by (auto simp add: recorded_def)
next
  case (identity_raised e sess started allreduced comm_end new)
  from issued_append[OF identity_raised(3)] identity_raised show ?thesis
    by (auto simp add: recorded_def)
next
  case (returned sess started allreduced comm_end out)
  from issued_append[OF returned(4)] returned show ?thesis
    by (auto simp add: recorded_def deferred_calls_def)
qed

theorem deferred_allreduce_dependency_edges_witness:
  "fst (DistributedOptimizer_allreduce (sample_env 2 False)
     (sample_optimizer False\<lparr>self_grads := Some [Some (Tensor 5), Some (IndexedSlices 6)]\<rparr>)
     sample_runtime) = Inr [Some (Tensor 3), Some (Tensor 4)] \<and>
   (\<exists>sess started allreduced comm_end tensors.
      [Some (Tensor 3), Some (Tensor 4)] = map Some tensors \<and>
      length tensors = length allreduced \<and>
      issued sample_runtime (snd (snd (DistributedOptimizer_allreduce (sample_env 2 False)
        (sample_optimizer False\<lparr>self_grads := Some [Some (Tensor 5), Some (IndexedSlices 6)]\<rparr>)
        sample_runtime))) =
      deferred_calls sample_runtime [Some (Tensor 5), Some (IndexedSlices 6)]
        sess started allreduced comm_end tensors)"
proof -
  define self where
    "self = sample_optimizer False\<lparr>self_grads := Some [Some (Tensor 5), Some (IndexedSlices 6)]\<rparr>"
  have r: "fst (DistributedOptimizer_allreduce (sample_env 2 False) self sample_runtime) =
      Inr [Some (Tensor 3), Some (Tensor 4)]"
    unfolding self_def
    by (simp add: DistributedOptimizer_allreduce_def Let_def sample_env_def sample_optimizer_def
        sample_runtime_def and_then_def read_grads_def extern_def with_control_dependencies_def
        tf_identity_call_def)
  have deferred: "\<not> self_executing_eagerly self"
    by (simp add: self_def sample_optimizer_def)
  have many: "1 < hvd_size (sample_env 2 False) (world sample_runtime)"
    by (simp add: sample_env_def)
  have grads: "self_grads self = Some [Some (Tensor 5), Some (IndexedSlices 6)]"
    by (simp add: self_def)
  have run: "DistributedOptimizer_allreduce (sample_env 2 False) self sample_runtime =
      (Inr [Some (Tensor 3), Some (Tensor 4)],
       fst (snd (DistributedOptimizer_allreduce (sample_env 2 False) self sample_runtime)),
       snd (snd (DistributedOptimizer_allreduce (sample_env 2 False) self sample_runtime)))"
    using r by (cases "DistributedOptimizer_allreduce (sample_env 2 False) self sample_runtime") simp
  note t = deferred_allreduce_dependency_edges[OF deferred many grads run]
  from t[THEN conjunct2, THEN conjunct2, THEN conjunct2, THEN conjunct2, rule_format, OF refl]
  have "\<exists>sess started allreduced comm_end tensors.
      [Some (Tensor 3), Some (Tensor 4)] = map Some tensors \<and>
      length tensors = length allreduced \<and>
      issued sample_runtime (snd (snd (DistributedOptimizer_allreduce (sample_env 2 False) self
        sample_runtime))) =
      deferred_calls sample_runtime [Some (Tensor 5), Some (IndexedSlices 6)]
        sess started allreduced comm_end tensors" .
  with r show ?thesis unfolding self_def by (rule conjI)
qed

lemma init_flag:
  assumes "DistributedOptimizer_init env p cls base kwargs rt = (Inr self, rt')"
  shows "\<not> self_aggregated_gradients self \<and> self_grads self = None \<and>
    self_class_name self = cls \<and> self_base_class_name self = base"
  using assms
  by (auto simp: DistributedOptimizer_init_def and_then_def returning_def
      split: prod.splits sum.splits if_splits)

lemma allreduce_flag:
  "DistributedOptimizer_allreduce env self rt = (r, self', rt') \<Longrightarrow>
   self' = self\<lparr>self_aggregated_gradients := True\<rparr>"
  by (auto simp: DistributedOptimizer_allreduce_def Let_def split: prod.splits)

lemma invoke_flag:
  "invoke env c self rt = (self', rt') \<Longrightarrow>
   self_aggregated_gradients self' =
     (self_aggregated_gradients self \<or> enters_allreduce env c rt)"
proof (cases c)
  case (GetGradients loss params)
  assume run: "invoke env c self rt = (self', rt')"
  obtain a rt1 where super: "extern (SuperGetGradients loss params) RGradients
      (super_get_gradients env loss params) rt = (a, rt1)"
    by (cases "extern (SuperGetGradients loss params) RGradients
      (super_get_gradients env loss params) rt") blast
  then have a: "a = fst (super_get_gradients env loss params (world rt))"
    by (auto simp: extern_def split: prod.splits)
  show ?thesis
  proof (cases a)
    case (Inl e)
    with a have sg: "fst (super_get_gradients env loss params (world rt)) = Inl e" by simp
    from run super GetGradients Inl show ?thesis
      by (simp add: invoke_def DistributedOptimizer_get_gradients_def enters_allreduce_def sg)
  next
    case (Inr gs)
    with a have sg: "fst (super_get_gradients env loss params (world rt)) = Inr gs" by simp
    obtain r2 self2 rt2 where ar: "DistributedOptimizer_allreduce env (self\<lparr>self_grads := Some gs\<rparr>) rt1 = (r2, self2, rt2)"
      by (metis prod.exhaust)
    from allreduce_flag[OF ar] run super GetGradients Inr ar show ?thesis
      by (auto simp: invoke_def DistributedOptimizer_get_gradients_def enters_allreduce_def sg)
  qed
next
  case (AggregateGradients gv)
  assume run: "invoke env c self rt = (self', rt')"
  obtain r2 self2 rt2 where ar: "DistributedOptimizer_allreduce env
      (self\<lparr>self_grads := Some (map (\<lambda>(grad, var). grad) gv)\<rparr>) rt = (r2, self2, rt2)"
    by (metis prod.exhaust)
  from allreduce_flag[OF ar] run AggregateGradients ar show ?thesis
    by (auto simp: invoke_def DistributedOptimizer_aggregate_gradients_def enters_allreduce_def)
next
  case Allreduce
  assume run: "invoke env c self rt = (self', rt')"
  obtain r2 self2 rt2 where ar: "DistributedOptimizer_allreduce env self rt = (r2, self2, rt2)"
    by (metis prod.exhaust)
  from allreduce_flag[OF ar] run Allreduce ar show ?thesis
    by (auto simp: invoke_def enters_allreduce_def)
next
  case (ApplyGradients args)
  assume run: "invoke env c self rt = (self', rt')"
  with ApplyGradients show ?thesis
    by (auto simp: invoke_def DistributedOptimizer_apply_gradients_def enters_allreduce_def
        split: prod.splits if_splits)
qed

lemma invoke_all_flag:
  "self_aggregated_gradients (fst (invoke_all env cs self rt)) =
     (self_aggregated_gradients self \<or> ever_entered env cs self rt)"
proof (induction cs arbitrary: self rt)
  case Nil
  show ?case by simp
next
  case (Cons c cs)
  obtain self1 rt1 where step: "invoke env c self rt = (self1, rt1)"
    by (cases "invoke env c self rt") blast
  from invoke_flag[OF step] Cons.IH[of self1 rt1] step show ?case
    by auto
qed

lemma invoke_all_append:
  "invoke_all env (cs @ later) self rt =
     (case invoke_all env cs self rt of (self', rt') \<Rightarrow> invoke_all env later self' rt')"
  by (induction cs arbitrary: self rt) (auto split: prod.splits)

lemma sample_init:
  "DistributedOptimizer_init (sample_env 2 False) sample_params ''Adam'' ''Adam'' 0 sample_runtime =
     (Inr (sample_optimizer False),
      snd (DistributedOptimizer_init (sample_env 2 False) sample_params ''Adam'' ''Adam'' 0
             sample_runtime))"
proof -
  have "fst (DistributedOptimizer_init (sample_env 2 False) sample_params ''Adam'' ''Adam'' 0
      sample_runtime) = Inr (sample_optimizer False)"
    by code_simp
  then show ?thesis by (metis prod.collapse)
qed

text \<open>
  C7. The ordering flag of a fresh instance is unset. After any sequence of method calls
  it is set exactly if one of the calls reached \<^verbatim>\<open>_allreduce\<close>, and once it is set it
  stays set whatever calls follow.
\<close>

theorem aggregated_gradients_latch:
  assumes "DistributedOptimizer_init env p cls base kwargs rt0 = (Inr self, rt)"
  shows "\<not> self_aggregated_gradients self \<and>
    self_aggregated_gradients (fst (invoke_all env cs self rt1)) = ever_entered env cs self rt1 \<and>
    (self_aggregated_gradients (fst (invoke_all env cs self rt1)) \<longrightarrow>
       self_aggregated_gradients (fst (invoke_all env (cs @ later) self rt1)))"
proof -
  from init_flag[OF assms] have fresh: "\<not> self_aggregated_gradients self" by simp
  obtain self1 rt2 where mid: "invoke_all env cs self rt1 = (self1, rt2)"
    by (cases "invoke_all env cs self rt1") blast
  have before: "self_aggregated_gradients (fst (invoke_all env cs self rt1)) =
      ever_entered env cs self rt1"
    using invoke_all_flag[of env cs self rt1] fresh by simp
  have "invoke_all env (cs @ later) self rt1 = invoke_all env later self1 rt2"
    by (simp add: invoke_all_append mid)
  then have "self_aggregated_gradients (fst (invoke_all env (cs @ later) self rt1)) =
      (self_aggregated_gradients self1 \<or> ever_entered env later self1 rt2)"
    by (simp only: invoke_all_flag)
  moreover have "fst (invoke_all env cs self rt1) = self1" by (simp add: mid)
  ultimately show ?thesis using fresh before by simp
qed

theorem aggregated_gradients_latch_witness:
  "\<not> self_aggregated_gradients (sample_optimizer False) \<and>
   \<not> self_aggregated_gradients (fst (invoke_all (sample_env 2 False) [ApplyGradients 7]
        (sample_optimizer False) sample_runtime)) \<and>
   self_aggregated_gradients (fst (invoke_all (sample_env 2 False)
        ([ApplyGradients 7, AggregateGradients [(None, 3)]] @ [ApplyGradients 7, ApplyGradients 8])
        (sample_optimizer False) sample_runtime))"
proof -
  note a = aggregated_gradients_latch[OF sample_init, of "[ApplyGradients 7]" sample_runtime "[]"]
  note b = aggregated_gradients_latch[OF sample_init,
      of "[ApplyGradients 7, AggregateGradients [(None, 3)]]" sample_runtime
         "[ApplyGradients 7, ApplyGradients 8]"]
  have never: "\<not> ever_entered (sample_env 2 False) [ApplyGradients 7] (sample_optimizer False)
      sample_runtime"
    by code_simp
  have once: "ever_entered (sample_env 2 False) [ApplyGradients 7, AggregateGradients [(None, 3)]]
      (sample_optimizer False) sample_runtime"
    by code_simp
  from a never have "\<not> self_aggregated_gradients (sample_optimizer False)"
    "\<not> self_aggregated_gradients (fst (invoke_all (sample_env 2 False) [ApplyGradients 7]
        (sample_optimizer False) sample_runtime))"
    by simp_all
  moreover from b once have "self_aggregated_gradients (fst (invoke_all (sample_env 2 False)
        ([ApplyGradients 7, AggregateGradients [(None, 3)]] @ [ApplyGradients 7, ApplyGradients 8])
        (sample_optimizer False) sample_runtime))"
    by blast
  ultimately show ?thesis by blast
qed

lemma invoke_all_single:
  "fst (invoke_all env [GetGradients loss params] self rt) =
     fst (snd (DistributedOptimizer_get_gradients env loss params self rt))"
  "fst (invoke_all env [AggregateGradients gv] self rt) =
     fst (snd (DistributedOptimizer_aggregate_gradients env gv self rt))"
  by (simp_all add: invoke_def split: prod.splits)

lemma ordering_error_names_calls:
  "(\<exists>pre post. ordering_error = pre @ ''get_gradients()'' @ post) \<and>
   (\<exists>pre post. ordering_error = pre @ ''_aggregate_gradients'' @ post)"
proof
  have "ordering_error = ''`apply_gradients()` was called without a call to `'' @
      ''get_gradients()'' @ (''`or `_aggregate_gradients` . If you'' @ [CHR 0x27] @ ''re using '' @
     ''TensorFlow 2.0 or 2.1, please specify '' @
     ''`experimental_run_tf_function=False` in `compile()`.'')"
    by (simp add: ordering_error_def)
  then show "\<exists>pre post. ordering_error = pre @ ''get_gradients()'' @ post" by blast
  have "ordering_error = ''`apply_gradients()` was called without a call to `get_gradients()`or `'' @
      ''_aggregate_gradients'' @ (''` . If you'' @ [CHR 0x27] @ ''re using '' @
     ''TensorFlow 2.0 or 2.1, please specify '' @
     ''`experimental_run_tf_function=False` in `compile()`.'')"
    by (simp add: ordering_error_def)
  then show "\<exists>pre post. ordering_error = pre @ ''_aggregate_gradients'' @ post" by blast
qed

text \<open>
  C1. On a fresh instance, and as long as no call has reached \<^verbatim>\<open>_allreduce\<close>,
  \<^verbatim>\<open>apply_gradients\<close> raises the exception whose message names \<^verbatim>\<open>get_gradients()\<close>
  and \<^verbatim>\<open>_aggregate_gradients\<close>, and calls nothing. A call of \<^verbatim>\<open>get_gradients\<close> in
  which the wrapped optimizer's own \<^verbatim>\<open>get_gradients\<close> raises does not reach
  \<^verbatim>\<open>_allreduce\<close>, and \<^verbatim>\<open>apply_gradients\<close> still raises after it. After a call that
  reached \<^verbatim>\<open>_allreduce\<close>, so after any call of \<^verbatim>\<open>_aggregate_gradients\<close> and after a
  call of \<^verbatim>\<open>get_gradients\<close> in which the wrapped \<^verbatim>\<open>get_gradients\<close> returned,
  \<^verbatim>\<open>apply_gradients\<close> is the aggregation helper's \<^verbatim>\<open>apply_gradients\<close>, called with
  the wrapped optimizer's own update on the same arguments as its closure.
\<close>

theorem apply_gradients_ordering:
  assumes "DistributedOptimizer_init env p cls base kwargs rt0 = (Inr self, rt)"
  shows "DistributedOptimizer_apply_gradients env args self rt1 =
           (Inl (Exception ordering_error), self, rt1) \<and>
    (\<exists>pre post. ordering_error = pre @ ''get_gradients()'' @ post) \<and>
    (\<exists>pre post. ordering_error = pre @ ''_aggregate_gradients'' @ post) \<and>
    (\<not> ever_entered env cs self rt1 \<longrightarrow>
       DistributedOptimizer_apply_gradients env args (fst (invoke_all env cs self rt1)) rt2 =
         (Inl (Exception ordering_error), fst (invoke_all env cs self rt1), rt2)) \<and>
    (ever_entered env cs self rt1 \<longrightarrow>
       DistributedOptimizer_apply_gradients env args (fst (invoke_all env cs self rt1)) rt2 =
         (case extern (AggApplyGradients args) RObject
                 (agg_apply_gradients env (super_apply_gradients env args) args) rt2 of
            (r, rt') \<Rightarrow> (r, fst (invoke_all env cs self rt1), rt'))) \<and>
    DistributedOptimizer_apply_gradients env args
        (fst (snd (DistributedOptimizer_aggregate_gradients env grads_and_vars self rt1))) rt2 =
      (case extern (AggApplyGradients args) RObject
              (agg_apply_gradients env (super_apply_gradients env args) args) rt2 of
         (r, rt') \<Rightarrow>
           (r, fst (snd (DistributedOptimizer_aggregate_gradients env grads_and_vars self rt1)),
            rt')) \<and>
    (\<forall>gs w. super_get_gradients env loss params (world rt1) = (Inr gs, w) \<longrightarrow>
       DistributedOptimizer_apply_gradients env args
           (fst (snd (DistributedOptimizer_get_gradients env loss params self rt1))) rt2 =
         (case extern (AggApplyGradients args) RObject
                 (agg_apply_gradients env (super_apply_gradients env args) args) rt2 of
            (r, rt') \<Rightarrow>
              (r, fst (snd (DistributedOptimizer_get_gradients env loss params self rt1)), rt'))) \<and>
    (\<forall>e w. super_get_gradients env loss params (world rt1) = (Inl e, w) \<longrightarrow>
       DistributedOptimizer_apply_gradients env args
           (fst (snd (DistributedOptimizer_get_gradients env loss params self rt1))) rt2 =
         (Inl (Exception ordering_error),
          fst (snd (DistributedOptimizer_get_gradients env loss params self rt1)), rt2))"
proof -
  from init_flag[OF assms] have fresh: "\<not> self_aggregated_gradients self" by simp
  have flag: "self_aggregated_gradients (fst (invoke_all env xs self rt1)) =
      ever_entered env xs self rt1" for xs
    using invoke_all_flag[of env xs self rt1] fresh by simp
  have raises: "DistributedOptimizer_apply_gradients env args s x =
      (Inl (Exception ordering_error), s, x)" if "\<not> self_aggregated_gradients s"
    for s and x :: "'a runtime"
    using that by (simp add: DistributedOptimizer_apply_gradients_def)
  have delegates: "DistributedOptimizer_apply_gradients env args s rt2 =
      (case extern (AggApplyGradients args) RObject
              (agg_apply_gradients env (super_apply_gradients env args) args) rt2 of
         (r, rt') \<Rightarrow> (r, s, rt'))" if "self_aggregated_gradients s" for s
    using that by (simp add: DistributedOptimizer_apply_gradients_def)
  have agg: "self_aggregated_gradients
      (fst (snd (DistributedOptimizer_aggregate_gradients env grads_and_vars self rt1)))"
    using flag[of "[AggregateGradients grads_and_vars]"]
    by (simp add: invoke_all_single enters_allreduce_def del: invoke_all.simps split: prod.splits)
  have got: "self_aggregated_gradients
      (fst (snd (DistributedOptimizer_get_gradients env loss params self rt1)))"
    if "super_get_gradients env loss params (world rt1) = (Inr gs, w)" for gs w
    using flag[of "[GetGradients loss params]"] that
    by (simp add: invoke_all_single enters_allreduce_def del: invoke_all.simps split: prod.splits)
  have failed: "\<not> self_aggregated_gradients
      (fst (snd (DistributedOptimizer_get_gradients env loss params self rt1)))"
    if "super_get_gradients env loss params (world rt1) = (Inl e, w)" for e w
    using flag[of "[GetGradients loss params]"] that
    by (simp add: invoke_all_single enters_allreduce_def del: invoke_all.simps split: prod.splits)
  have c1: "DistributedOptimizer_apply_gradients env args self rt1 =
           (Inl (Exception ordering_error), self, rt1)"
    by (rule raises[OF fresh])
  have c4: "\<not> ever_entered env cs self rt1 \<longrightarrow>
       DistributedOptimizer_apply_gradients env args (fst (invoke_all env cs self rt1)) rt2 =
         (Inl (Exception ordering_error), fst (invoke_all env cs self rt1), rt2)"
    using raises[of "fst (invoke_all env cs self rt1)" rt2] flag[of cs] by simp
  have c5: "ever_entered env cs self rt1 \<longrightarrow>
       DistributedOptimizer_apply_gradients env args (fst (invoke_all env cs self rt1)) rt2 =
         (case extern (AggApplyGradients args) RObject
                 (agg_apply_gradients env (super_apply_gradients env args) args) rt2 of
            (r, rt') \<Rightarrow> (r, fst (invoke_all env cs self rt1), rt'))"
    using delegates[of "fst (invoke_all env cs self rt1)"] flag[of cs] by simp
  note c6 = delegates[OF agg]
  have c7: "\<forall>gs w. super_get_gradients env loss params (world rt1) = (Inr gs, w) \<longrightarrow>
       DistributedOptimizer_apply_gradients env args
           (fst (snd (DistributedOptimizer_get_gradients env loss params self rt1))) rt2 =
         (case extern (AggApplyGradients args) RObject
                 (agg_apply_gradients env (super_apply_gradients env args) args) rt2 of
            (r, rt') \<Rightarrow>
              (r, fst (snd (DistributedOptimizer_get_gradients env loss params self rt1)), rt'))"
    using delegates[OF got] by blast
  have c8: "\<forall>e w. super_get_gradients env loss params (world rt1) = (Inl e, w) \<longrightarrow>
       DistributedOptimizer_apply_gradients env args
           (fst (snd (DistributedOptimizer_get_gradients env loss params self rt1))) rt2 =
         (Inl (Exception ordering_error),
          fst (snd (DistributedOptimizer_get_gradients env loss params self rt1)), rt2)"
    using raises[OF failed] by blast
  from ordering_error_names_calls have c2:
    "\<exists>pre post. ordering_error = pre @ ''get_gradients()'' @ post"
    and c3: "\<exists>pre post. ordering_error = pre @ ''_aggregate_gradients'' @ post"
    by (rule conjunct1, rule conjunct2)
  show ?thesis
    by (intro conjI) (rule c1, rule c2, rule c3, rule c4, rule c5, rule c6, rule c7, rule c8)
qed

theorem apply_gradients_ordering_witness:
  "fst (DistributedOptimizer_apply_gradients (sample_env 2 False) 7 (sample_optimizer False)
          sample_runtime) = Inl (Exception ordering_error) \<and>
   fst (DistributedOptimizer_apply_gradients (sample_env 2 False) 7
          (fst (invoke_all (sample_env 2 False) [GetGradients 1 2] (sample_optimizer False)
                  sample_runtime))
          sample_runtime) = Inr 0"
proof -
  note t = apply_gradients_ordering[OF sample_init, of 7 sample_runtime "[GetGradients 1 2]"
      sample_runtime]
  note before = t[THEN conjunct1]
  note after = t[THEN conjunct2, THEN conjunct2, THEN conjunct2, THEN conjunct2, THEN conjunct1]
  have entered: "ever_entered (sample_env 2 False) [GetGradients 1 2] (sample_optimizer False)
      sample_runtime"
    by code_simp
  have "fst (extern (AggApplyGradients 7) RObject
      (agg_apply_gradients (sample_env 2 False) (super_apply_gradients (sample_env 2 False) 7) 7)
      sample_runtime) = Inr 0"
    by code_simp
  then obtain rt' where delegate: "extern (AggApplyGradients 7) RObject
      (agg_apply_gradients (sample_env 2 False) (super_apply_gradients (sample_env 2 False) 7) 7)
      sample_runtime = (Inr 0, rt')"
    by (metis prod.collapse)
  from before have "fst (DistributedOptimizer_apply_gradients (sample_env 2 False) 7
      (sample_optimizer False) sample_runtime) = Inl (Exception ordering_error)"
    by simp
  moreover from after[THEN mp, OF entered] have
    "fst (DistributedOptimizer_apply_gradients (sample_env 2 False) 7
          (fst (invoke_all (sample_env 2 False) [GetGradients 1 2] (sample_optimizer False)
                  sample_runtime))
          sample_runtime) = Inr 0"
    by (simp only: delegate prod.case fst_conv)
  ultimately show ?thesis by (rule conjI)
qed

text \<open>
  The delegation does not hold after every call of \<^verbatim>\<open>get_gradients\<close>. Here the
  wrapped \<^verbatim>\<open>get_gradients\<close> raises, \<^verbatim>\<open>get_gradients\<close> raises with it before
  \<^verbatim>\<open>_allreduce\<close> is reached, and \<^verbatim>\<open>apply_gradients\<close> on the instance as that call
  left it raises the ordering exception.
\<close>

theorem apply_gradients_ordering_counterexample:
  "fst (DistributedOptimizer_init raising_env sample_params ''Adam'' ''Adam'' 0 sample_runtime) =
     Inr (sample_optimizer False) \<and>
   fst (DistributedOptimizer_get_gradients raising_env 1 2 (sample_optimizer False) sample_runtime) =
     Inl (CollaboratorError 0) \<and>
   fst (DistributedOptimizer_apply_gradients raising_env 7
          (fst (snd (DistributedOptimizer_get_gradients raising_env 1 2 (sample_optimizer False)
                       sample_runtime)))
          sample_runtime) = Inl (Exception ordering_error)"
  by (simp add: raising_env_def sample_env_def sample_params_def sample_optimizer_def
      sample_runtime_def DistributedOptimizer_init_def DistributedOptimizer_get_gradients_def
      DistributedOptimizer_apply_gradients_def and_then_def returning_def extern_def)



section \<open>Properties of model restoration\<close>

lemma dict_comprehension_lookup:
  "dict_comprehension key val xs d k =
     (case filter (\<lambda>x. key x = k) xs of [] \<Rightarrow> d k | y # ys \<Rightarrow> Some (val (last (y # ys))))"
  by (induction xs arbitrary: d) (auto split: list.splits)

lemma dict_comprehension_dom:
  "dom (dict_comprehension key val xs d) = dom d \<union> key ` set xs"
  by (induction xs arbitrary: d) auto

text \<open>
  C8. \<^verbatim>\<open>load_model\<close> hands \<^verbatim>\<open>keras.models.load_model\<close> the file path and the combined
  table. Under any key the table holds the entry of \<^verbatim>\<open>custom_objects\<close> if it has one;
  else the wrapped class of the last custom optimizer with that exact name, if there is
  one; else the wrapped class of the last built-in optimizer subclass from the optimizer
  modules whose lowercased name is the key; else nothing.
\<close>

theorem load_model_table_precedence:
  "load_model subclasses keras_load_model wrap_optimizer optimizer_modules filepath
     custom_optimizers custom_objects =
   keras_load_model filepath
     (horovod_objects subclasses wrap_optimizer optimizer_modules custom_optimizers custom_objects)
   \<and> horovod_objects subclasses wrap_optimizer optimizer_modules custom_optimizers custom_objects k =
     (case (case custom_objects of None \<Rightarrow> None | Some objects \<Rightarrow> objects k) of
        Some v \<Rightarrow> Some v
      | None \<Rightarrow>
         (case filter (\<lambda>c. cls_name c = k)
                 (case custom_optimizers of None \<Rightarrow> [] | Some classes \<Rightarrow> classes) of
            c # cs \<Rightarrow> Some (wrap_optimizer (last (c # cs)))
          | [] \<Rightarrow>
             (case filter (\<lambda>b. lower (cls_name b) = k)
                     (filter (\<lambda>b. cls_module b \<in> set optimizer_modules) subclasses) of
                b # bs \<Rightarrow> Some (wrap_optimizer (last (b # bs)))
              | [] \<Rightarrow> None)))"
proof -
  define objects where "objects = (case custom_objects of None \<Rightarrow> None | Some objects \<Rightarrow> objects k)"
  define classes where "classes = (case custom_optimizers of None \<Rightarrow> [] | Some classes \<Rightarrow> classes)"
  have custom: "with_custom_optimizers wrap_optimizer custom_optimizers d k =
      (case filter (\<lambda>c. cls_name c = k) classes of
         c # cs \<Rightarrow> Some (wrap_optimizer (last (c # cs))) | [] \<Rightarrow> d k)" for d
    by (cases custom_optimizers; cases "filter (\<lambda>c. cls_name c = k) classes")
       (simp_all add: classes_def with_custom_optimizers_def map_add_def
          dict_comprehension_lookup del: last.simps)
  have "horovod_objects subclasses wrap_optimizer optimizer_modules custom_optimizers custom_objects k =
      (case objects of
         Some v \<Rightarrow> Some v
       | None \<Rightarrow> with_custom_optimizers wrap_optimizer custom_optimizers
           (builtin_objects subclasses wrap_optimizer optimizer_modules) k)"
    by (cases custom_objects; cases objects)
       (simp_all add: objects_def horovod_objects_def with_custom_objects_def map_add_def)
  then show ?thesis
    unfolding custom objects_def [symmetric] classes_def [symmetric]
    by (cases objects; cases "filter (\<lambda>c. cls_name c = k) classes")
       (simp_all add: load_model_def builtin_objects_def dict_comprehension_lookup
          del: last.simps)
qed

lemma builtin_objects_dom:
  "dom (builtin_objects subclasses wrap_optimizer optimizer_modules) =
     (\<lambda>x. lower (cls_name x)) ` {x \<in> set subclasses. cls_module x \<in> set optimizer_modules}"
  by (simp add: builtin_objects_def dict_comprehension_dom)

lemma custom_optimizers_dom:
  "dom (with_custom_optimizers wrap_optimizer (Some classes) Map.empty) = cls_name ` set classes"
  by (simp add: with_custom_optimizers_def dict_comprehension_dom)

lemma with_custom_optimizers_lookup:
  "with_custom_optimizers wrap_optimizer (Some classes) d k =
     (case filter (\<lambda>x. cls_name x = k) classes of
        [] \<Rightarrow> d k
      | y # ys \<Rightarrow> Some (wrap_optimizer (last (y # ys))))"
  by (cases "filter (\<lambda>x. cls_name x = k) classes")
     (simp_all add: with_custom_optimizers_def map_add_def dict_comprehension_lookup
        del: last.simps)

text \<open>
  C9. Built-in entries are keyed by the lowercased class name, custom optimizer entries by
  the exact class name. So a custom optimizer class \<open>c\<close> named like a built-in class
  \<open>b\<close> whose name is not all lowercase goes under a key of its own, and the entry
  under the lowercased name is what it would be had \<open>c\<close> not been passed: the built-in
  entry, unless another custom class bears the lowercased name itself.
\<close>

theorem custom_optimizer_keyed_by_exact_name:
  assumes same_name: "cls_name c = cls_name b"
    and not_lowercase: "lower (cls_name b) \<noteq> cls_name b"
    and custom: "c \<in> set classes"
    and builtin: "b \<in> set subclasses" "cls_module b \<in> set optimizer_modules"
  shows "dom (builtin_objects subclasses wrap_optimizer optimizer_modules) =
           (\<lambda>x. lower (cls_name x)) ` {x \<in> set subclasses. cls_module x \<in> set optimizer_modules}
     \<and> dom (with_custom_optimizers wrap_optimizer (Some classes) Map.empty) = cls_name ` set classes
     \<and> cls_name c \<noteq> lower (cls_name b)
     \<and> with_custom_optimizers wrap_optimizer (Some classes)
           (builtin_objects subclasses wrap_optimizer optimizer_modules) (cls_name c) =
         Some (wrap_optimizer (last (filter (\<lambda>x. cls_name x = cls_name c) classes)))
     \<and> with_custom_optimizers wrap_optimizer (Some classes)
           (builtin_objects subclasses wrap_optimizer optimizer_modules) (lower (cls_name b)) =
         with_custom_optimizers wrap_optimizer (Some (removeAll c classes))
           (builtin_objects subclasses wrap_optimizer optimizer_modules) (lower (cls_name b))
     \<and> (lower (cls_name b) \<notin> cls_name ` set classes \<longrightarrow>
         with_custom_optimizers wrap_optimizer (Some classes)
           (builtin_objects subclasses wrap_optimizer optimizer_modules) (lower (cls_name b)) =
         builtin_objects subclasses wrap_optimizer optimizer_modules (lower (cls_name b)))
     \<and> builtin_objects subclasses wrap_optimizer optimizer_modules (lower (cls_name b)) \<noteq> None"
proof -
  have key: "cls_name c \<noteq> lower (cls_name b)"
    using same_name not_lowercase by simp
  have "filter (\<lambda>x. cls_name x = cls_name c) classes \<noteq> []"
    using custom by (auto simp: filter_empty_conv)
  then have inserted: "with_custom_optimizers wrap_optimizer (Some classes)
           (builtin_objects subclasses wrap_optimizer optimizer_modules) (cls_name c) =
         Some (wrap_optimizer (last (filter (\<lambda>x. cls_name x = cls_name c) classes)))"
    by (simp add: with_custom_optimizers_lookup split: list.splits del: last.simps)
  have "filter (\<lambda>x. cls_name x = lower (cls_name b)) (removeAll c xs) =
      filter (\<lambda>x. cls_name x = lower (cls_name b)) xs" for xs
    using key by (induction xs) auto
  then have untouched: "with_custom_optimizers wrap_optimizer (Some classes)
           (builtin_objects subclasses wrap_optimizer optimizer_modules) (lower (cls_name b)) =
         with_custom_optimizers wrap_optimizer (Some (removeAll c classes))
           (builtin_objects subclasses wrap_optimizer optimizer_modules) (lower (cls_name b))"
    by (simp add: with_custom_optimizers_lookup del: last.simps)
  have kept: "lower (cls_name b) \<notin> cls_name ` set classes \<longrightarrow>
         with_custom_optimizers wrap_optimizer (Some classes)
           (builtin_objects subclasses wrap_optimizer optimizer_modules) (lower (cls_name b)) =
         builtin_objects subclasses wrap_optimizer optimizer_modules (lower (cls_name b))"
  proof
    assume "lower (cls_name b) \<notin> cls_name ` set classes"
    then have "filter (\<lambda>x. cls_name x = lower (cls_name b)) classes = []"
      by (force simp: filter_empty_conv)
    then show "with_custom_optimizers wrap_optimizer (Some classes)
           (builtin_objects subclasses wrap_optimizer optimizer_modules) (lower (cls_name b)) =
         builtin_objects subclasses wrap_optimizer optimizer_modules (lower (cls_name b))"
      by (simp add: with_custom_optimizers_lookup)
  qed
  have "lower (cls_name b) \<in> dom (builtin_objects subclasses wrap_optimizer optimizer_modules)"
    using builtin unfolding builtin_objects_dom by blast
  then have present: "builtin_objects subclasses wrap_optimizer optimizer_modules (lower (cls_name b)) \<noteq> None"
    by auto
  from key inserted untouched kept present show ?thesis
    by (intro conjI) (rule builtin_objects_dom, rule custom_optimizers_dom, assumption+)
qed

theorem custom_optimizer_keyed_by_exact_name_witness:
  "cls_name \<lparr>cls_name = ''Adam'', cls_module = ''my.package''\<rparr> =
     cls_name \<lparr>cls_name = ''Adam'', cls_module = ''keras.optimizers''\<rparr> \<and>
   lower ''Adam'' \<noteq> ''Adam'' \<and>
   with_custom_optimizers cls_module (Some [\<lparr>cls_name = ''Adam'', cls_module = ''my.package''\<rparr>])
     (builtin_objects [\<lparr>cls_name = ''Adam'', cls_module = ''keras.optimizers''\<rparr>] cls_module
        [''keras.optimizers'']) ''adam'' = Some ''keras.optimizers'' \<and>
   with_custom_optimizers cls_module (Some [\<lparr>cls_name = ''Adam'', cls_module = ''my.package''\<rparr>])
     (builtin_objects [\<lparr>cls_name = ''Adam'', cls_module = ''keras.optimizers''\<rparr>] cls_module
        [''keras.optimizers'']) ''Adam'' = Some ''my.package''"
proof -
  define Adam where "Adam = \<lparr>cls_name = ''Adam'', cls_module = ''keras.optimizers''\<rparr>"
  define MyAdam where "MyAdam = \<lparr>cls_name = ''Adam'', cls_module = ''my.package''\<rparr>"
  have l: "lower ''Adam'' = ''adam''" by code_simp
  have h: "cls_name MyAdam = cls_name Adam" "lower (cls_name Adam) \<noteq> cls_name Adam"
    "MyAdam \<in> set [MyAdam]" "Adam \<in> set [Adam]" "cls_module Adam \<in> set [''keras.optimizers'']"
    by (simp_all add: Adam_def MyAdam_def l)
  note t = custom_optimizer_keyed_by_exact_name [OF h, of cls_module]
  have b: "builtin_objects [Adam] cls_module [''keras.optimizers''] ''adam'' = Some ''keras.optimizers''"
    by (simp add: builtin_objects_def Adam_def l)
  have e: "with_custom_optimizers cls_module (Some []) d = d" for d :: "string \<rightharpoonup> string"
    by (simp add: with_custom_optimizers_def)
  show ?thesis
    using h(1,2) t b by (simp add: Adam_def MyAdam_def l e)
qed

end
